theory Spec2Isabelle
  imports Complex_Main "HOL-Library.Multiset"
begin

section \<open>JavaScript values of a request body\<close>

text \<open>
  The handlers read eight properties of \<^verbatim>\<open>req.body\<close> and apply JavaScript's
  coercions to them, so the embedding keeps the values dynamically typed.
  \<^verbatim>\<open>express.json()\<close> hands over what \<^verbatim>\<open>JSON.parse\<close> returns: a property
  holds a primitive, an array or an object, or is absent (\<^verbatim>\<open>undefined\<close>).

  A number is an IEEE double: not-a-number, an infinity, or a finite value, which is a
  rational. Characters are the code units below 256, so \<open>length\<close> is
  \<^verbatim>\<open>String.prototype.length\<close> on such strings.
\<close>

datatype number = NaN | PosInfinity | NegInfinity | Finite rat

datatype jsval = JUndefined | JNull | JBool bool | JNum number | JStr string

text \<open>
  A property value: a primitive, an array of values, or an object, which lists each of
  its own keys once with the value there.
\<close>

datatype parsed = Prim jsval | Arr "parsed list" | Obj "(string \<times> parsed) list"

type_synonym object = "string \<Rightarrow> parsed"

datatype exception = TypeError

text \<open>
  The conversions between strings and numbers of the JavaScript runtime, the input
  function of PostgreSQL's type \<^verbatim>\<open>numeric\<close> (whose values have the same four
  forms as a double), and the text that the database driver sends for an array or an
  object: all of them parse or print notation, and none is code of the service. Every
  definition that needs one takes it from this record, and every theorem holds for
  all of them.
\<close>

record env =
  StringToNumber :: "string \<Rightarrow> number"
  NumberToString :: "rat \<Rightarrow> string"
  numeric_in :: "string \<Rightarrow> number option"
  driver_text :: "parsed \<Rightarrow> string"

fun falsy :: "jsval \<Rightarrow> bool" where
  "falsy JUndefined = True"
| "falsy JNull = True"
| "falsy (JBool b) = (\<not> b)"
| "falsy (JNum NaN) = True"
| "falsy (JNum (Finite q)) = (q = 0)"
| "falsy (JNum n) = False"
| "falsy (JStr s) = (s = [])"

fun ToString :: "env \<Rightarrow> jsval \<Rightarrow> string" where
  "ToString E JUndefined = ''undefined''"
| "ToString E JNull = ''null''"
| "ToString E (JBool b) = (if b then ''true'' else ''false'')"
| "ToString E (JNum NaN) = ''NaN''"
| "ToString E (JNum PosInfinity) = ''Infinity''"
| "ToString E (JNum NegInfinity) = ''-Infinity''"
| "ToString E (JNum (Finite q)) = NumberToString E q"
| "ToString E (JStr s) = s"

fun ToNumber :: "env \<Rightarrow> jsval \<Rightarrow> number" where
  "ToNumber E JUndefined = NaN"
| "ToNumber E JNull = Finite 0"
| "ToNumber E (JBool b) = Finite (if b then 1 else 0)"
| "ToNumber E (JNum n) = n"
| "ToNumber E (JStr s) = StringToNumber E s"

definition isNaN :: "env \<Rightarrow> jsval \<Rightarrow> bool" where
  "isNaN E v = (ToNumber E v = NaN)"

text \<open>
  \<^verbatim>\<open>v < c\<close> and \<^verbatim>\<open>v > c\<close> against a numeric literal: both sides are
  converted to numbers, and a comparison with not-a-number is false.
\<close>

definition js_lt :: "env \<Rightarrow> jsval \<Rightarrow> rat \<Rightarrow> bool" where
  "js_lt E v c = (case ToNumber E v of
       NaN \<Rightarrow> False | PosInfinity \<Rightarrow> False | NegInfinity \<Rightarrow> True | Finite q \<Rightarrow> q < c)"

definition js_gt :: "env \<Rightarrow> jsval \<Rightarrow> rat \<Rightarrow> bool" where
  "js_gt E v c = (case ToNumber E v of
       NaN \<Rightarrow> False | PosInfinity \<Rightarrow> True | NegInfinity \<Rightarrow> False | Finite q \<Rightarrow> c < q)"

text \<open>
  \<^verbatim>\<open>v.length\<close>: the number of code units of a string, \<^verbatim>\<open>undefined\<close> on a
  number or a boolean. On \<^verbatim>\<open>null\<close> and \<^verbatim>\<open>undefined\<close> the access
  throws; the handlers reach it only behind \<^verbatim>\<open>!v ||\<close>, which is true there.
\<close>

fun get_length :: "jsval \<Rightarrow> jsval" where
  "get_length (JStr s) = JNum (Finite (of_nat (length s)))"
| "get_length v = JUndefined"

text \<open>\<^verbatim>\<open>[...].includes(v)\<close> on an array of strings: only an equal string is found.\<close>

fun array_includes :: "string list \<Rightarrow> jsval \<Rightarrow> bool" where
  "array_includes xs (JStr s) = (s \<in> set xs)"
| "array_includes xs v = False"

subsection \<open>Arrays and objects\<close>

definition and_then :: "'e + 'a \<Rightarrow> ('a \<Rightarrow> 'e + 'b) \<Rightarrow> 'e + 'b" where
  "and_then m f = (case m of Inl e \<Rightarrow> Inl e | Inr x \<Rightarrow> f x)"

text \<open>\<^verbatim>\<open>Array.prototype.join\<close> on the strings of the elements, the first
  exception thrown among them passing through.\<close>

fun join :: "(exception + string) list \<Rightarrow> exception + string" where
  "join [] = Inr []"
| "join [x] = x"
| "join (x # y # ys) =
     and_then x (\<lambda>s. and_then (join (y # ys)) (\<lambda>t. Inr (s @ '','' @ t)))"

text \<open>
  The conversion of a value to a primitive. An array converts by
  \<^verbatim>\<open>Array.prototype.toString\<close>, which joins the strings of its elements with
  commas, a \<^verbatim>\<open>null\<close> or \<^verbatim>\<open>undefined\<close> element counting as the empty string.
  An object converts by \<^verbatim>\<open>Object.prototype.toString\<close> to
  \<^verbatim>\<open>[object Object]\<close>, unless it has an own key \<^verbatim>\<open>toString\<close>: a parsed
  value is never callable and the inherited \<^verbatim>\<open>valueOf\<close> returns the object
  itself, so the conversion throws a \<^verbatim>\<open>TypeError\<close>. Both hints give the same
  result on these values.
\<close>

fun ToPrimitive :: "env \<Rightarrow> parsed \<Rightarrow> exception + jsval" where
  "ToPrimitive E (Prim p) = Inr p"
| "ToPrimitive E (Arr xs) =
     and_then
       (join (map (\<lambda>x.
          if x = Prim JNull \<or> x = Prim JUndefined then Inr []
          else and_then (ToPrimitive E x) (\<lambda>p. Inr (ToString E p))) xs))
       (\<lambda>s. Inr (JStr s))"
| "ToPrimitive E (Obj kvs) =
     (if ''toString'' \<in> set (map fst kvs) then Inl TypeError
      else Inr (JStr ''[object Object]''))"

text \<open>\<^verbatim>\<open>v.length\<close> on any value: the number of elements of an array, the own
  property of that name of an object.\<close>

fun length_of :: "parsed \<Rightarrow> parsed" where
  "length_of (Prim p) = Prim (get_length p)"
| "length_of (Arr xs) = Prim (JNum (Finite (of_nat (length xs))))"
| "length_of (Obj kvs) = (case map_of kvs ''length'' of None \<Rightarrow> Prim JUndefined | Some x \<Rightarrow> x)"

section \<open>Regular expressions\<close>

text \<open>
  The four patterns of the validation block use literals, character classes,
  concatenation, \<^verbatim>\<open>*\<close>, \<^verbatim>\<open>+\<close>, \<^verbatim>\<open>{n}\<close> and one negative lookahead.
  \<open>rests r s\<close> lists what can remain of \<open>s\<close> after a match of \<open>r\<close> at its start,
  as a backtracking matcher explores it. All four patterns are anchored by
  \<^verbatim>\<open>^\<close> and \<^verbatim>\<open>$\<close> without flags, so \<^verbatim>\<open>/^r$/.test(s)\<close> holds when the
  whole string can be consumed.
\<close>

datatype regex =
    Eps
  | Chr char
  | Class "char \<Rightarrow> bool"
  | Seq regex regex
  | Star regex
  | Plus regex
  | NotAhead regex

text \<open>
  Repetition: an iteration that consumes nothing is not continued, so the length of
  the input bounds the number of iterations.
\<close>

fun iterate :: "(string \<Rightarrow> string list) \<Rightarrow> nat \<Rightarrow> string \<Rightarrow> string list" where
  "iterate f 0 s = [s]"
| "iterate f (Suc n) s =
     s # concat (map (iterate f n) (filter (\<lambda>t. length t < length s) (f s)))"

primrec rests :: "regex \<Rightarrow> string \<Rightarrow> string list" where
  "rests Eps = (\<lambda>s. [s])"
| "rests (Chr c) = (\<lambda>s. case s of [] \<Rightarrow> [] | d # t \<Rightarrow> if d = c then [t] else [])"
| "rests (Class P) = (\<lambda>s. case s of [] \<Rightarrow> [] | d # t \<Rightarrow> if P d then [t] else [])"
| "rests (Seq r1 r2) = (\<lambda>s. concat (map (rests r2) (rests r1 s)))"
| "rests (Star r) = (\<lambda>s. iterate (rests r) (length s) s)"
| "rests (Plus r) =
     (\<lambda>s. concat (map (\<lambda>t. iterate (rests r) (length t) t) (rests r s)))"
| "rests (NotAhead r) = (\<lambda>s. if rests r s = [] then [s] else [])"

definition test :: "regex \<Rightarrow> string \<Rightarrow> bool" where
  "test r s = ([] \<in> set (rests r s))"

fun Lit :: "string \<Rightarrow> regex" where
  "Lit [] = Eps"
| "Lit (c # cs) = Seq (Chr c) (Lit cs)"

fun Times :: "nat \<Rightarrow> regex \<Rightarrow> regex" where
  "Times 0 r = Eps"
| "Times (Suc n) r = Seq r (Times n r)"

subsection \<open>Character classes\<close>

definition code :: "char \<Rightarrow> nat" where
  "code c = of_char c"

definition upper :: "char \<Rightarrow> bool" where \<comment> \<open>\<^verbatim>\<open>A-Z\<close>\<close>
  "upper c = (65 \<le> code c \<and> code c \<le> 90)"

definition lower :: "char \<Rightarrow> bool" where \<comment> \<open>\<^verbatim>\<open>a-z\<close>\<close>
  "lower c = (97 \<le> code c \<and> code c \<le> 122)"

definition digit :: "char \<Rightarrow> bool" where \<comment> \<open>\<^verbatim>\<open>0-9\<close> and \<^verbatim>\<open>\d\<close>\<close>
  "digit c = (48 \<le> code c \<and> code c \<le> 57)"

definition word :: "char \<Rightarrow> bool" where \<comment> \<open>\<^verbatim>\<open>\w\<close>; \<^verbatim>\<open>\W\<close> is its complement\<close>
  "word c = (upper c \<or> lower c \<or> digit c \<or> c = CHR ''_'')"

definition whitespace :: "char \<Rightarrow> bool" where \<comment> \<open>\<^verbatim>\<open>\s\<close> below 256\<close>
  "whitespace c = (code c \<in> {9, 10, 11, 12, 13, 32, 160})"

subsection \<open>The patterns of the validation block\<close>

definition name_pattern :: regex where \<comment> \<open>\<^verbatim>\<open>/^[A-Z][a-zA-Z]+(?: [A-Z][a-zA-Z]+)*$/\<close>\<close>
  "name_pattern =
     Seq (Class upper) (Seq (Plus (Class (\<lambda>c. lower c \<or> upper c)))
       (Star (Seq (Chr CHR '' '')
          (Seq (Class upper) (Plus (Class (\<lambda>c. lower c \<or> upper c)))))))"

definition position_pattern :: regex where \<comment> \<open>\<^verbatim>\<open>/^[A-Za-z]+(?: [A-Za-z]+)*$/\<close>\<close>
  "position_pattern =
     Seq (Plus (Class (\<lambda>c. upper c \<or> lower c)))
       (Star (Seq (Chr CHR '' '') (Plus (Class (\<lambda>c. upper c \<or> lower c)))))"

definition empId_pattern :: regex where \<comment> \<open>\<^verbatim>\<open>/^ATS0(?!000)\d{3}$/\<close>\<close>
  "empId_pattern =
     Seq (Lit ''ATS0'') (Seq (NotAhead (Lit ''000'')) (Times 3 (Class digit)))"

definition symbols_pattern :: regex where \<comment> \<open>\<^verbatim>\<open>/^[0-9\s\W_]+$/\<close>\<close>
  "symbols_pattern =
     Plus (Class (\<lambda>c. digit c \<or> whitespace c \<or> \<not> word c \<or> c = CHR ''_''))"

section \<open>Input validation\<close>

text \<open>
  The eight conditions of the validation block, in the order of the source; the block
  is the same in both versions of the server. Each \<open>invalid_\<close> predicate is the
  condition of one \<^verbatim>\<open>if\<close> on a primitive value.
\<close>

definition invalid_empName :: "env \<Rightarrow> jsval \<Rightarrow> bool" where
  "invalid_empName E empName =
     (falsy empName \<or> \<not> test name_pattern (ToString E empName))"

definition invalid_position :: "env \<Rightarrow> jsval \<Rightarrow> bool" where
  "invalid_position E position =
     (falsy position \<or> \<not> test position_pattern (ToString E position))"

definition invalid_department :: "jsval \<Rightarrow> bool" where
  "invalid_department department =
     (falsy department
      \<or> \<not> array_includes [''Engineering'', ''Marketing'', ''HR'', ''Finance''] department)"

definition invalid_empId :: "env \<Rightarrow> jsval \<Rightarrow> bool" where
  "invalid_empId E empId = (falsy empId \<or> \<not> test empId_pattern (ToString E empId))"

definition invalid_feedback :: "env \<Rightarrow> jsval \<Rightarrow> bool" where
  "invalid_feedback E feedback =
     (falsy feedback \<or> js_gt E (get_length feedback) 500
      \<or> test symbols_pattern (ToString E feedback))"

definition invalid_acknowledgment :: "env \<Rightarrow> jsval \<Rightarrow> bool" where
  "invalid_acknowledgment E acknowledgment =
     (falsy acknowledgment \<or> js_gt E (get_length acknowledgment) 300
      \<or> test symbols_pattern (ToString E acknowledgment))"

definition invalid_finalSalary :: "env \<Rightarrow> jsval \<Rightarrow> bool" where
  "invalid_finalSalary E finalSalary =
     (isNaN E finalSalary \<or> js_lt E finalSalary 1000 \<or> js_gt E finalSalary 1000000)"

definition invalid_bonus :: "env \<Rightarrow> jsval \<Rightarrow> bool" where
  "invalid_bonus E bonus = (isNaN E bonus \<or> js_lt E bonus 0 \<or> js_gt E bonus 100000)"

text \<open>
  On an array or an object the operands of a condition convert the value first, which
  can throw; \<^verbatim>\<open>a || b\<close> evaluates \<open>b\<close> only when \<open>a\<close> is false, and an array
  or an object is never falsy. Each \<open>check_\<close> function is the condition of one
  \<^verbatim>\<open>if\<close> on any value: its result, or the exception thrown while it is evaluated.
\<close>

definition or_else :: "exception + bool \<Rightarrow> exception + bool \<Rightarrow> exception + bool" where
  "or_else a b = and_then a (\<lambda>x. if x then Inr True else b)"

definition regex_test :: "env \<Rightarrow> regex \<Rightarrow> parsed \<Rightarrow> exception + bool" where
  "regex_test E r v = and_then (ToPrimitive E v) (\<lambda>p. Inr (test r (ToString E p)))"

definition greater :: "env \<Rightarrow> parsed \<Rightarrow> rat \<Rightarrow> exception + bool" where
  "greater E v c = and_then (ToPrimitive E v) (\<lambda>p. Inr (js_gt E p c))"

definition check_empName :: "env \<Rightarrow> parsed \<Rightarrow> exception + bool" where
  "check_empName E empName = (case empName of
       Prim p \<Rightarrow> Inr (invalid_empName E p)
     | _ \<Rightarrow> and_then (regex_test E name_pattern empName) (\<lambda>m. Inr (\<not> m)))"

definition check_position :: "env \<Rightarrow> parsed \<Rightarrow> exception + bool" where
  "check_position E position = (case position of
       Prim p \<Rightarrow> Inr (invalid_position E p)
     | _ \<Rightarrow> and_then (regex_test E position_pattern position) (\<lambda>m. Inr (\<not> m)))"

definition check_department :: "parsed \<Rightarrow> exception + bool" where
  "check_department department = (case department of
       Prim p \<Rightarrow> Inr (invalid_department p)
     | _ \<Rightarrow> Inr True)"

definition check_empId :: "env \<Rightarrow> parsed \<Rightarrow> exception + bool" where
  "check_empId E empId = (case empId of
       Prim p \<Rightarrow> Inr (invalid_empId E p)
     | _ \<Rightarrow> and_then (regex_test E empId_pattern empId) (\<lambda>m. Inr (\<not> m)))"

definition check_feedback :: "env \<Rightarrow> parsed \<Rightarrow> exception + bool" where
  "check_feedback E feedback = (case feedback of
       Prim p \<Rightarrow> Inr (invalid_feedback E p)
     | _ \<Rightarrow> or_else (greater E (length_of feedback) 500)
            (regex_test E symbols_pattern feedback))"

definition check_acknowledgment :: "env \<Rightarrow> parsed \<Rightarrow> exception + bool" where
  "check_acknowledgment E acknowledgment = (case acknowledgment of
       Prim p \<Rightarrow> Inr (invalid_acknowledgment E p)
     | _ \<Rightarrow> or_else (greater E (length_of acknowledgment) 300)
            (regex_test E symbols_pattern acknowledgment))"

definition check_finalSalary :: "env \<Rightarrow> parsed \<Rightarrow> exception + bool" where
  "check_finalSalary E finalSalary =
     and_then (ToPrimitive E finalSalary) (\<lambda>p. Inr (invalid_finalSalary E p))"

definition check_bonus :: "env \<Rightarrow> parsed \<Rightarrow> exception + bool" where
  "check_bonus E bonus = and_then (ToPrimitive E bonus) (\<lambda>p. Inr (invalid_bonus E p))"

text \<open>
  The block returns at the first condition that holds; \<open>validate\<close> gives the
  \<^verbatim>\<open>error\<close> string of that response, \<open>None\<close> when the handler goes on to the
  insertion, or the exception that a condition throws. The block stands outside any
  \<^verbatim>\<open>try\<close>.
\<close>

definition validate :: "env \<Rightarrow> object \<Rightarrow> exception + string option" where
  "validate E body =
     and_then (check_empName E (body ''empName'')) (\<lambda>invalid.
     if invalid then Inr (Some ''Invalid employee name'') else
     and_then (check_position E (body ''position'')) (\<lambda>invalid.
     if invalid then Inr (Some ''Invalid position'') else
     and_then (check_department (body ''department'')) (\<lambda>invalid.
     if invalid then Inr (Some ''Invalid department'') else
     and_then (check_empId E (body ''empId'')) (\<lambda>invalid.
     if invalid then Inr (Some ''Invalid employee ID'') else
     and_then (check_feedback E (body ''feedback'')) (\<lambda>invalid.
     if invalid then Inr (Some ''Invalid feedback'') else
     and_then (check_acknowledgment E (body ''acknowledgment'')) (\<lambda>invalid.
     if invalid then Inr (Some ''Invalid acknowledgment'') else
     and_then (check_finalSalary E (body ''finalSalary'')) (\<lambda>invalid.
     if invalid then Inr (Some ''Invalid final salary'') else
     and_then (check_bonus E (body ''bonus'')) (\<lambda>invalid.
     if invalid then Inr (Some ''Invalid bonus amount'') else
     Inr None))))))))"

section \<open>The store\<close>

text \<open>
  The table of \<^verbatim>\<open>createTableQuery\<close>, which both versions create with the same
  statement: a row has the ten columns of the schema, the table is the list of its rows
  in insertion order, and \<open>offboarding_id_seq\<close> is the last value of the sequence behind
  \<^verbatim>\<open>id SERIAL\<close>. \<open>reachable\<close> says whether a query reaches the database at all.
\<close>

record row =
  row_id :: int
  employee_name :: string
  position :: string
  department :: string
  employee_id :: string
  feedback :: string
  final_salary :: number
  bonus :: number
  acknowledgment :: string
  created_at :: int

record database =
  reachable :: bool
  offboarding :: "row list"
  offboarding_id_seq :: int

datatype pg_error = ConnectionError | SqlState string

text \<open>
  The driver sends \<^verbatim>\<open>null\<close> and \<^verbatim>\<open>undefined\<close> as SQL \<^verbatim>\<open>NULL\<close>, any
  other primitive as its string, and an array or an object as the driver's text of it.
\<close>

fun prepareValue :: "env \<Rightarrow> parsed \<Rightarrow> string option" where
  "prepareValue E (Prim JUndefined) = None"
| "prepareValue E (Prim JNull) = None"
| "prepareValue E (Prim p) = Some (ToString E p)"
| "prepareValue E v = Some (driver_text E v)"

subsection \<open>Binding the parameters\<close>

text \<open>
  The server reads the eight parameters in their order before the statement runs. A
  text that contains the character 0 is refused (SQLSTATE 22021); the texts of the two
  numeric parameters are read by the input function of \<^verbatim>\<open>numeric\<close> (SQLSTATE
  22P02 when that rejects a text).
\<close>

definition text_in :: "string option \<Rightarrow> pg_error + string option" where
  "text_in p = (case p of
       None \<Rightarrow> Inr None
     | Some t \<Rightarrow> if CHR 0x00 \<in> set t then Inl (SqlState ''22021'') else Inr (Some t))"

definition numeric_input :: "env \<Rightarrow> string option \<Rightarrow> pg_error + number option" where
  "numeric_input E p = and_then (text_in p) (\<lambda>t. case t of
       None \<Rightarrow> Inr None
     | Some s \<Rightarrow> (case numeric_in E s of
         None \<Rightarrow> Inl (SqlState ''22P02'')
       | Some q \<Rightarrow> Inr (Some q)))"

record bound =
  employee_name_value :: "string option"
  position_value :: "string option"
  department_value :: "string option"
  employee_id_value :: "string option"
  feedback_value :: "string option"
  final_salary_value :: "number option"
  bonus_value :: "number option"
  acknowledgment_value :: "string option"

definition bind :: "env \<Rightarrow> parsed list \<Rightarrow> pg_error + bound" where
  "bind E params = (case params of
     [v1, v2, v3, v4, v5, v6, v7, v8] \<Rightarrow>
       and_then (text_in (prepareValue E v1)) (\<lambda>b1.
       and_then (text_in (prepareValue E v2)) (\<lambda>b2.
       and_then (text_in (prepareValue E v3)) (\<lambda>b3.
       and_then (text_in (prepareValue E v4)) (\<lambda>b4.
       and_then (text_in (prepareValue E v5)) (\<lambda>b5.
       and_then (numeric_input E (prepareValue E v6)) (\<lambda>b6.
       and_then (numeric_input E (prepareValue E v7)) (\<lambda>b7.
       and_then (text_in (prepareValue E v8)) (\<lambda>b8.
         Inr \<lparr>employee_name_value = b1, position_value = b2, department_value = b3,
              employee_id_value = b4, feedback_value = b5, final_salary_value = b6,
              bonus_value = b7, acknowledgment_value = b8\<rparr>))))))))
   | _ \<Rightarrow> Inl (SqlState ''08P01''))"

subsection \<open>Assignment to the columns\<close>

text \<open>
  Assignment to \<^verbatim>\<open>VARCHAR(n)\<close>: a longer value is an error (SQLSTATE 22001)
  unless only spaces exceed the limit, which are cut off.
\<close>

definition varchar :: "nat \<Rightarrow> string option \<Rightarrow> pg_error + string option" where
  "varchar n p = (case p of
       None \<Rightarrow> Inr None
     | Some s \<Rightarrow>
         if length s \<le> n then Inr (Some s)
         else if list_all (\<lambda>c. c = CHR '' '') (drop n s) then Inr (Some (take n s))
         else Inl (SqlState ''22001''))"

text \<open>
  Assignment to \<^verbatim>\<open>NUMERIC(10, 2)\<close>: a finite value is rounded to two decimal
  places, a tie away from zero, and must then stay below \<open>10\<^sup>8\<close> in absolute value; an
  infinity does not fit either (SQLSTATE 22003), not-a-number is kept.
\<close>

definition round2 :: "rat \<Rightarrow> rat" where
  "round2 q =
     (if 0 \<le> q then of_int \<lfloor>q * 100 + 1 / 2\<rfloor> / 100
      else - (of_int \<lfloor>- q * 100 + 1 / 2\<rfloor> / 100))"

definition numeric_10_2 :: "number option \<Rightarrow> pg_error + number option" where
  "numeric_10_2 p = (case p of
       None \<Rightarrow> Inr None
     | Some NaN \<Rightarrow> Inr (Some NaN)
     | Some (Finite q) \<Rightarrow>
         if \<bar>round2 q\<bar> < 100000000 then Inr (Some (Finite (round2 q)))
         else Inl (SqlState ''22003'')
     | Some infinity \<Rightarrow> Inl (SqlState ''22003''))"

text \<open>
  The statement is planned with the values of its parameters, and the planner
  evaluates the assignments of the constant parameters: an error of a coercion ends
  the query before the statement runs.
\<close>

definition coerce :: "bound \<Rightarrow> pg_error + bound" where
  "coerce b =
     and_then (varchar 30 (employee_name_value b)) (\<lambda>c1.
     and_then (varchar 30 (position_value b)) (\<lambda>c2.
     and_then (varchar 50 (department_value b)) (\<lambda>c3.
     and_then (varchar 7 (employee_id_value b)) (\<lambda>c4.
     and_then (numeric_10_2 (final_salary_value b)) (\<lambda>c6.
     and_then (numeric_10_2 (bonus_value b)) (\<lambda>c7.
       Inr (b\<lparr>employee_name_value := c1, position_value := c2, department_value := c3,
              employee_id_value := c4, final_salary_value := c6, bonus_value := c7\<rparr>)))))))"

definition assign :: "env \<Rightarrow> parsed list \<Rightarrow> pg_error + bound" where
  "assign E params = and_then (bind E params) coerce"

subsection \<open>Running the statement\<close>

definition not_null :: "'a option \<Rightarrow> pg_error + 'a" where
  "not_null p = (case p of None \<Rightarrow> Inl (SqlState ''23502'') | Some x \<Rightarrow> Inr x)"

text \<open>
  The row that \<^verbatim>\<open>insertQuery\<close> builds from the assigned values, the next sequence
  value and the current timestamp: every column is \<^verbatim>\<open>NOT NULL\<close>.
\<close>

definition new_row :: "int \<Rightarrow> int \<Rightarrow> bound \<Rightarrow> pg_error + row" where
  "new_row i now b =
     and_then (not_null (employee_name_value b)) (\<lambda>n1.
     and_then (not_null (position_value b)) (\<lambda>n2.
     and_then (not_null (department_value b)) (\<lambda>n3.
     and_then (not_null (employee_id_value b)) (\<lambda>n4.
     and_then (not_null (feedback_value b)) (\<lambda>n5.
     and_then (not_null (final_salary_value b)) (\<lambda>n6.
     and_then (not_null (bonus_value b)) (\<lambda>n7.
     and_then (not_null (acknowledgment_value b)) (\<lambda>n8.
       Inr \<lparr>row_id = i, employee_name = n1, position = n2, department = n3,
            employee_id = n4, feedback = n5, final_salary = n6, bonus = n7,
            acknowledgment = n8, created_at = now\<rparr>))))))))"

text \<open>
  \<^verbatim>\<open>pool.query(insertQuery, values)\<close>. An unreachable database fails before
  anything else, then a parameter that cannot be read or assigned. When the statement
  runs, the sequence advances (also when the statement fails later, and not beyond the
  largest \<^verbatim>\<open>integer\<close>), the row is built, and the two unique indexes (the
  primary key on \<^verbatim>\<open>id\<close> and \<^verbatim>\<open>UNIQUE\<close> on \<^verbatim>\<open>employee_id\<close>) reject a
  duplicate with SQLSTATE 23505. The result is the \<^verbatim>\<open>RETURNING id\<close> of the new
  row, or the error thrown.
\<close>

definition insert_offboarding ::
  "env \<Rightarrow> int \<Rightarrow> database \<Rightarrow> parsed list \<Rightarrow> (pg_error + int) \<times> database" where
  "insert_offboarding E now db params =
     (if \<not> reachable db then (Inl ConnectionError, db)
      else case assign E params of
        Inl e \<Rightarrow> (Inl e, db)
      | Inr b \<Rightarrow>
          if offboarding_id_seq db \<ge> 2147483647 then (Inl (SqlState ''2200H''), db)
          else
            let i = offboarding_id_seq db + 1;
                db' = db\<lparr>offboarding_id_seq := i\<rparr>
            in case new_row i now b of
                 Inl e \<Rightarrow> (Inl e, db')
               | Inr r \<Rightarrow>
                   if row_id r \<in> set (map row_id (offboarding db))
                      \<or> employee_id r \<in> set (map employee_id (offboarding db))
                   then (Inl (SqlState ''23505''), db')
                   else (Inr i, db'\<lparr>offboarding := offboarding db @ [r]\<rparr>))"

text \<open>The row that the statement stores when no unique index objects.\<close>

definition stored_row :: "env \<Rightarrow> int \<Rightarrow> int \<Rightarrow> parsed list \<Rightarrow> pg_error + row" where
  "stored_row E i now params = and_then (assign E params) (new_row i now)"

text \<open>
  \<^verbatim>\<open>SELECT ... ORDER BY created_at DESC\<close>. The order among rows of equal
  \<open>created_at\<close> is left open by SQL; this definition keeps them in insertion order.
\<close>

definition select_offboarding :: "database \<Rightarrow> pg_error + row list" where
  "select_offboarding db =
     (if reachable db then Inr (sort_key (\<lambda>r. - created_at r) (offboarding db))
      else Inl ConnectionError)"

text \<open>
  What the constraints of the table and the sequence maintain: no two rows share an
  \<^verbatim>\<open>employee_id\<close> or an \<^verbatim>\<open>id\<close>, and the sequence has passed every
  \<^verbatim>\<open>id\<close> in the table.
\<close>

definition consistent :: "database \<Rightarrow> bool" where
  "consistent db =
     (distinct (map employee_id (offboarding db))
      \<and> distinct (map row_id (offboarding db))
      \<and> list_all (\<lambda>x. row_id x \<le> offboarding_id_seq db) (offboarding db))"

section \<open>Responses\<close>

text \<open>
  What a handler passes to \<^verbatim>\<open>res.status(...).json(...)\<close>. A numeric column and a
  timestamp column keep their column value here; the driver and the JSON encoder turn
  both into strings. A handler that throws before it answers sends nothing: its
  result is the exception.
\<close>

datatype json =
    JString string
  | JInteger int
  | JNumeric number
  | JTimestamp int
  | JObject "(string \<times> json) list"
  | JArray "json list"

record response =
  status :: nat
  json :: json

definition keys :: "json \<Rightarrow> string list" where
  "keys j = (case j of JObject kvs \<Rightarrow> map fst kvs | _ \<Rightarrow> [])"

definition elements :: "json \<Rightarrow> json list" where
  "elements j = (case j of JArray js \<Rightarrow> js | _ \<Rightarrow> [])"

definition lookup :: "string \<Rightarrow> json \<Rightarrow> json option" where
  "lookup k j = (case j of JObject kvs \<Rightarrow> map_of kvs k | _ \<Rightarrow> None)"

section \<open>The handlers of \<^verbatim>\<open>src/unnamed/part_000\<close>\<close>

text \<open>The array \<^verbatim>\<open>values\<close> of both submit handlers, in the order of the
  parameters of \<^verbatim>\<open>insertQuery\<close>.\<close>

definition values_of :: "object \<Rightarrow> parsed list" where
  "values_of body =
     [body ''empName'', body ''position'', body ''department'', body ''empId'',
      body ''feedback'', body ''finalSalary'', body ''bonus'', body ''acknowledgment'']"

definition submit ::
  "env \<Rightarrow> int \<Rightarrow> database \<Rightarrow> object \<Rightarrow> (exception + response) \<times> database" where
  "submit E now db body =
     (case validate E body of
        Inl e \<Rightarrow> (Inl e, db)
      | Inr (Some msg) \<Rightarrow>
          (Inr \<lparr>status = 400, json = JObject [(''error'', JString msg)]\<rparr>, db)
      | Inr None \<Rightarrow>
          (case insert_offboarding E now db (values_of body) of
             (Inr i, db') \<Rightarrow>
               (Inr \<lparr>status = 201,
                 json = JObject [(''message'', JString ''Offboarding form submitted successfully''),
                                 (''id'', JInteger i)]\<rparr>, db')
           | (Inl error, db') \<Rightarrow>
               if error = SqlState ''23505''
               then (Inr \<lparr>status = 409,
                      json = JObject [(''error'', JString ''Employee ID already exists'')]\<rparr>, db')
               else (Inr \<lparr>status = 500,
                      json = JObject [(''error'', JString ''Internal server error'')]\<rparr>, db')))"

definition row_json :: "row \<Rightarrow> json" where
  "row_json r = JObject
     [(''empName'', JString (employee_name r)),
      (''position'', JString (position r)),
      (''department'', JString (department r)),
      (''empId'', JString (employee_id r)),
      (''feedback'', JString (feedback r)),
      (''finalSalary'', JNumeric (final_salary r)),
      (''bonus'', JNumeric (bonus r)),
      (''acknowledgment'', JString (acknowledgment r)),
      (''createdAt'', JTimestamp (created_at r))]"

definition list_offboarding :: "database \<Rightarrow> response" where
  "list_offboarding db =
     (case select_offboarding db of
        Inr rows \<Rightarrow> \<lparr>status = 200, json = JArray (map row_json rows)\<rparr>
      | Inl error \<Rightarrow>
          \<lparr>status = 500, json = JObject [(''error'', JString ''Internal server error'')]\<rparr>)"

text \<open>
  The health check reads the count of clients of the global connection pool and
  nothing else; a state of the service is the database together with that pool, and
  \<open>timestamp\<close> is the string of the current date.
\<close>

record pool =
  totalCount :: nat

record service =
  store :: database
  pool :: pool

definition health :: "service \<Rightarrow> string \<Rightarrow> response" where
  "health s timestamp =
     \<lparr>status = 200,
      json = JObject
        [(''status'', JString ''healthy''),
         (''timestamp'', JString timestamp),
         (''database'',
          JString (if totalCount (pool s) > 0 then ''connected'' else ''disconnected''))]\<rparr>"

section \<open>The handlers of \<^verbatim>\<open>src/Backend/server.js\<close>\<close>

text \<open>
  The same validation block and the same statements; the status codes differ, an
  unexpected error goes through the error middleware, and the listing selects no
  \<^verbatim>\<open>created_at\<close>.
\<close>

definition submit_Backend ::
  "env \<Rightarrow> int \<Rightarrow> database \<Rightarrow> object \<Rightarrow> (exception + response) \<times> database" where
  "submit_Backend E now db body =
     (case validate E body of
        Inl e \<Rightarrow> (Inl e, db)
      | Inr (Some msg) \<Rightarrow>
          (Inr \<lparr>status = 400, json = JObject [(''error'', JString msg)]\<rparr>, db)
      | Inr None \<Rightarrow>
          (case insert_offboarding E now db (values_of body) of
             (Inr i, db') \<Rightarrow>
               (Inr \<lparr>status = 200,
                 json = JObject [(''message'', JString ''Offboarding form submitted successfully''),
                                 (''id'', JInteger i)]\<rparr>, db')
           | (Inl error, db') \<Rightarrow>
               if error = SqlState ''23505''
               then (Inr \<lparr>status = 400,
                      json = JObject [(''error'', JString ''Employee ID already exists'')]\<rparr>, db')
               else (Inr \<lparr>status = 500,
                      json = JObject [(''error'', JString ''Internal server error. Please try again later.'')]\<rparr>, db')))"

definition row_json_Backend :: "row \<Rightarrow> json" where
  "row_json_Backend r = JObject
     [(''empName'', JString (employee_name r)),
      (''position'', JString (position r)),
      (''department'', JString (department r)),
      (''empId'', JString (employee_id r)),
      (''feedback'', JString (feedback r)),
      (''finalSalary'', JNumeric (final_salary r)),
      (''bonus'', JNumeric (bonus r)),
      (''acknowledgment'', JString (acknowledgment r))]"

definition list_offboarding_Backend :: "database \<Rightarrow> response" where
  "list_offboarding_Backend db =
     (case select_offboarding db of
        Inr rows \<Rightarrow> \<lparr>status = 200, json = JArray (map row_json_Backend rows)\<rparr>
      | Inl error \<Rightarrow>
          \<lparr>status = 500,
           json = JObject [(''error'',
             JString ''Internal server error. Please try again later.'')]\<rparr>)"

section \<open>Startup of \<^verbatim>\<open>src/unnamed/part_000\<close>\<close>

text \<open>
  What the process does while it starts, as the list of its actions on the outside
  world. \<open>connect k\<close> tells whether the call of \<^verbatim>\<open>pool.connect()\<close> after
  \<open>k\<close> failed ones succeeds, \<open>created\<close> whether \<^verbatim>\<open>createTableQuery\<close>
  does. \<^verbatim>\<open>process.exit\<close> ends the process: nothing follows an \<open>Exit\<close>.
\<close>

datatype event =
    Connect bool
  | Delay nat
  | CreateTable bool
  | Listen nat
  | Exit nat

text \<open>
  The loop of \<^verbatim>\<open>connectWithRetry\<close> from the value \<open>attempts\<close> on. The result
  tells whether the promise is fulfilled (\<open>True\<close>) or rejected by
  \<^verbatim>\<open>throw err\<close> (\<open>False\<close>).
\<close>

function connectWithRetry_loop ::
  "(nat \<Rightarrow> bool) \<Rightarrow> nat \<Rightarrow> nat \<Rightarrow> nat \<Rightarrow> event list \<times> bool" where
  "connectWithRetry_loop connect maxAttempts delay attempts =
     (if attempts < maxAttempts then
        if connect attempts then ([Connect True], True)
        else
          let attempts' = attempts + 1 in
          if attempts' < maxAttempts then
            let (events, fulfilled) = connectWithRetry_loop connect maxAttempts delay attempts'
            in (Connect False # Delay delay # events, fulfilled)
          else ([Connect False], False)
      else ([], True))"
  by pat_completeness auto
termination
  by (relation "measure (\<lambda>(connect, maxAttempts, delay, attempts). maxAttempts - attempts)") auto

declare connectWithRetry_loop.simps [simp del]

definition connectWithRetry :: "(nat \<Rightarrow> bool) \<Rightarrow> nat \<Rightarrow> nat \<Rightarrow> event list \<times> bool" where
  "connectWithRetry connect maxAttempts delay =
     connectWithRetry_loop connect maxAttempts delay 0"

definition initializeDatabase :: "(nat \<Rightarrow> bool) \<Rightarrow> bool \<Rightarrow> event list \<times> bool" where
  "initializeDatabase connect created =
     (let (events, fulfilled) = connectWithRetry connect 5 5000 in
      if \<not> fulfilled then (events @ [Exit 1], False)
      else if \<not> created then (events @ [CreateTable False, Exit 1], False)
      else (events @ [CreateTable True], True))"

definition port :: nat where
  "port = 3100"

definition startup :: "(nat \<Rightarrow> bool) \<Rightarrow> bool \<Rightarrow> event list" where
  "startup connect created =
     (let (events, fulfilled) = initializeDatabase connect created in
      if fulfilled then events @ [Listen port] else events)"

text \<open>
  Vocabulary for traces: the connection attempts in a trace, \<open>k\<close> failed attempts each
  followed by its delay, and the first of the attempts \<open>0, \<dots>, m - 1\<close> that succeeds.
\<close>

definition is_attempt :: "event \<Rightarrow> bool" where
  "is_attempt e = (case e of Connect ok \<Rightarrow> True | _ \<Rightarrow> False)"

definition retries :: "nat \<Rightarrow> nat \<Rightarrow> event list" where
  "retries k delay = concat (replicate k [Connect False, Delay delay])"

definition first_success :: "(nat \<Rightarrow> bool) \<Rightarrow> nat \<Rightarrow> nat option" where
  "first_success connect m = find connect [0..<m]"

section \<open>The rules of the specification\<close>

text \<open>
  The specification lists eight rules in a fixed order and lets validation return the
  first one that fails. The definitions of this section follow its words, not the
  code. The six text fields are texts: a property that is no string satisfies none of
  their rules. A text is split into its words at every space, so two spaces in a row,
  or a space at either end, give an empty word.
\<close>

datatype field =
  EmpName | Position | Department | EmpId | Feedback | Acknowledgment | FinalSalary | Bonus

definition rule_order :: "field list" where
  "rule_order =
     [EmpName, Position, Department, EmpId, Feedback, Acknowledgment, FinalSalary, Bonus]"

fun text_of :: "parsed \<Rightarrow> string option" where
  "text_of (Prim (JStr s)) = Some s"
| "text_of v = None"

fun words :: "string \<Rightarrow> string list" where
  "words [] = [[]]"
| "words (c # s) =
     (if c = CHR '' '' then [] # words s
      else case words s of
        w # ws \<Rightarrow> (c # w) # ws
      | [] \<Rightarrow> [[c]])"

definition alphabetic :: "char \<Rightarrow> bool" where
  "alphabetic c = (upper c \<or> lower c)"

text \<open>Rule 1: one or more words, each an uppercase letter followed by letters of either
  case, separated by single spaces.\<close>

definition name_word :: "string \<Rightarrow> bool" where
  "name_word w = (case w of
       [] \<Rightarrow> False
     | c # cs \<Rightarrow> upper c \<and> cs \<noteq> [] \<and> list_all alphabetic cs)"

definition employeeName_rule :: "string \<Rightarrow> bool" where
  "employeeName_rule s = list_all name_word (words s)"

text \<open>Rule 2: one or more alphabetic words separated by single spaces.\<close>

definition position_rule :: "string \<Rightarrow> bool" where
  "position_rule s = list_all (\<lambda>w. w \<noteq> [] \<and> list_all alphabetic w) (words s)"

text \<open>Rule 3: exactly one of the four departments.\<close>

definition department_rule :: "string \<Rightarrow> bool" where
  "department_rule s = (s \<in> {''Engineering'', ''Marketing'', ''HR'', ''Finance''})"

text \<open>Rule 4: the prefix \<^verbatim>\<open>ATS0\<close>, then exactly three digits, which are not
  \<^verbatim>\<open>000\<close>.\<close>

definition employeeId_rule :: "string \<Rightarrow> bool" where
  "employeeId_rule s =
     (take 4 s = ''ATS0'' \<and> length (drop 4 s) = 3 \<and> list_all digit (drop 4 s)
      \<and> drop 4 s \<noteq> ''000'')"

text \<open>Rules 5 and 6: not empty, at most \<open>n\<close> characters, at least one alphabetic
  character.\<close>

definition comment_rule :: "nat \<Rightarrow> string \<Rightarrow> bool" where
  "comment_rule n s = (s \<noteq> [] \<and> length s \<le> n \<and> list_ex alphabetic s)"

text \<open>Rules 7 and 8: the value parses as a number, which lies between the two bounds,
  both included. A value parses as JavaScript converts it.\<close>

definition parses :: "env \<Rightarrow> parsed \<Rightarrow> rat option" where
  "parses E v = (case ToPrimitive E v of
       Inl e \<Rightarrow> None
     | Inr p \<Rightarrow> (case ToNumber E p of Finite q \<Rightarrow> Some q | _ \<Rightarrow> None))"

definition amount_rule :: "rat \<Rightarrow> rat \<Rightarrow> rat option \<Rightarrow> bool" where
  "amount_rule lo hi a = (case a of None \<Rightarrow> False | Some q \<Rightarrow> lo \<le> q \<and> q \<le> hi)"

definition text_rule :: "(string \<Rightarrow> bool) \<Rightarrow> parsed \<Rightarrow> bool" where
  "text_rule R v = (case text_of v of None \<Rightarrow> False | Some s \<Rightarrow> R s)"

fun satisfies :: "env \<Rightarrow> object \<Rightarrow> field \<Rightarrow> bool" where
  "satisfies E body EmpName = text_rule employeeName_rule (body ''empName'')"
| "satisfies E body Position = text_rule position_rule (body ''position'')"
| "satisfies E body Department = text_rule department_rule (body ''department'')"
| "satisfies E body EmpId = text_rule employeeId_rule (body ''empId'')"
| "satisfies E body Feedback = text_rule (comment_rule 500) (body ''feedback'')"
| "satisfies E body Acknowledgment = text_rule (comment_rule 300) (body ''acknowledgment'')"
| "satisfies E body FinalSalary = amount_rule 1000 1000000 (parses E (body ''finalSalary''))"
| "satisfies E body Bonus = amount_rule 0 100000 (parses E (body ''bonus''))"

definition violates :: "env \<Rightarrow> object \<Rightarrow> field \<Rightarrow> bool" where
  "violates E body f = (\<not> satisfies E body f)"

text \<open>The error that names each field.\<close>

fun message :: "field \<Rightarrow> string" where
  "message EmpName = ''Invalid employee name''"
| "message Position = ''Invalid position''"
| "message Department = ''Invalid department''"
| "message EmpId = ''Invalid employee ID''"
| "message Feedback = ''Invalid feedback''"
| "message Acknowledgment = ''Invalid acknowledgment''"
| "message FinalSalary = ''Invalid final salary''"
| "message Bonus = ''Invalid bonus amount''"

text \<open>The identifiers \<^verbatim>\<open>ATS0001\<close> to \<^verbatim>\<open>ATS0999\<close>: the prefix and the three
  decimal digits of \<open>n\<close>.\<close>

definition decimal :: "nat \<Rightarrow> char" where
  "decimal k = char_of (48 + k)"

definition ATS0 :: "nat \<Rightarrow> string" where
  "ATS0 n = ''ATS0'' @ [decimal (n div 100), decimal (n div 10 mod 10), decimal (n mod 10)]"

text \<open>
  A body of the shape that the forms send: each text field a string or missing
  (\<^verbatim>\<open>null\<close> or absent), each amount a primitive.
\<close>

definition text_typed :: "parsed \<Rightarrow> bool" where
  "text_typed v = (case v of
       Prim (JStr s) \<Rightarrow> True | Prim JNull \<Rightarrow> True | Prim JUndefined \<Rightarrow> True | _ \<Rightarrow> False)"

definition primitive :: "parsed \<Rightarrow> bool" where
  "primitive v = (case v of Prim p \<Rightarrow> True | _ \<Rightarrow> False)"

definition typed :: "object \<Rightarrow> bool" where
  "typed body =
     (text_typed (body ''empName'') \<and> text_typed (body ''position'')
      \<and> text_typed (body ''department'') \<and> text_typed (body ''empId'')
      \<and> text_typed (body ''feedback'') \<and> text_typed (body ''acknowledgment'')
      \<and> primitive (body ''finalSalary'') \<and> primitive (body ''bonus''))"

section \<open>Example inputs\<close>

text \<open>
  The request of the specification's concrete scenario, and an \<open>env\<close> that has the
  decimal notation of its two numbers.
\<close>

definition example_env :: env where
  "example_env =
     \<lparr>StringToNumber = (\<lambda>s. if s = ''75000'' then Finite 75000 else NaN),
      NumberToString = (\<lambda>q. if q = 75000 then ''75000'' else ''5000''),
      numeric_in = (\<lambda>s. if s = ''75000'' then Some (Finite 75000)
                         else if s = ''5000'' then Some (Finite 5000) else None),
      driver_text = (\<lambda>v. ''{}'')\<rparr>"

definition example_body :: object where
  "example_body =
     (\<lambda>k. Prim JUndefined)
       (''empName'' := Prim (JStr ''Jane Doe''),
        ''position'' := Prim (JStr ''Engineer''),
        ''department'' := Prim (JStr ''Engineering''),
        ''empId'' := Prim (JStr ''ATS0123''),
        ''feedback'' := Prim (JStr ''Great team, sad to leave.''),
        ''finalSalary'' := Prim (JNum (Finite 75000)),
        ''bonus'' := Prim (JNum (Finite 5000)),
        ''acknowledgment'' := Prim (JStr ''I acknowledge receipt of my final pay.''))"

text \<open>
  The row that the scenario stores at time 17 in the empty table, the table before and
  after, and a name of 35 letters that matches the name pattern.
\<close>

definition example_row :: row where
  "example_row =
     \<lparr>row_id = 1, employee_name = ''Jane Doe'', position = ''Engineer'',
      department = ''Engineering'', employee_id = ''ATS0123'',
      feedback = ''Great team, sad to leave.'', final_salary = Finite 75000,
      bonus = Finite 5000,
      acknowledgment = ''I acknowledge receipt of my final pay.'', created_at = 17\<rparr>"

definition empty_store :: database where
  "empty_store = \<lparr>reachable = True, offboarding = [], offboarding_id_seq = 0\<rparr>"

definition example_store :: database where
  "example_store = \<lparr>reachable = True, offboarding = [example_row], offboarding_id_seq = 1\<rparr>"

definition long_name :: string where
  "long_name = ''Wolfeschlegelsteinhausenbergerdorff''"

text \<open>
  A second row, stored one tick later; a service whose pool has dropped its idle
  clients while the database is up, and one that still holds a client of a database
  that is no longer reachable.
\<close>

definition later_row :: row where
  "later_row = example_row\<lparr>row_id := 2, employee_id := ''ATS0456'', created_at := 18\<rparr>"

definition idle_service :: service where
  "idle_service = \<lparr>store = example_store, pool = \<lparr>totalCount = 0\<rparr>\<rparr>"

definition cut_off_service :: service where
  "cut_off_service = \<lparr>store = example_store\<lparr>reachable := False\<rparr>, pool = \<lparr>totalCount = 1\<rparr>\<rparr>"

text \<open>
  Bodies that the validation block does not answer: the name is an object with an own
  key \<^verbatim>\<open>toString\<close>, as \<^verbatim>\<open>{"empName": {"toString": 1}, ...}\<close> parses; the
  second one has a position with digits as well. And a feedback that contains the
  character 0.
\<close>

definition throwing_body :: object where
  "throwing_body =
     example_body(''empName'' := Obj [(''toString'', Prim (JNum (Finite 1)))])"

definition throwing_body2 :: object where
  "throwing_body2 = throwing_body(''position'' := Prim (JStr ''R2 D2''))"

definition zero_feedback :: object where
  "zero_feedback = example_body(''feedback'' := Prim (JStr [CHR ''a'', CHR 0x00]))"

section \<open>Properties of the patterns\<close>

lemma iterate_Class:
  assumes "f [] = []" and "\<And>c t. f (c # t) = (if P c then [t] else [])"
  shows "length s \<le> n \<Longrightarrow>
    t \<in> set (iterate f n s) \<longleftrightarrow> (\<exists>w. s = w @ t \<and> list_all P w)"
proof (induction n arbitrary: s)
  case 0
  then show ?case by auto
next
  case (Suc n)
  show ?case
  proof (cases s)
    case Nil
    then show ?thesis by (auto simp: assms)
  next
    case (Cons c u)
    with Suc.prems have "length u \<le> n" by simp
    note IH = Suc.IH [OF this]
    show ?thesis
    proof
      assume "t \<in> set (iterate f (Suc n) s)"
      with Cons IH have "t = s \<or> (P c \<and> (\<exists>w. u = w @ t \<and> list_all P w))"
        by (auto simp: assms split: if_splits)
      then show "\<exists>w. s = w @ t \<and> list_all P w"
      proof
        assume "t = s"
        then have "s = [] @ t \<and> list_all P []" by simp
        then show ?thesis by blast
      next
        assume "P c \<and> (\<exists>w. u = w @ t \<and> list_all P w)"
        then obtain w where "P c" "u = w @ t" "list_all P w" by blast
        with Cons have "s = (c # w) @ t \<and> list_all P (c # w)" by simp
        then show ?thesis by blast
      qed
    next
      assume "\<exists>w. s = w @ t \<and> list_all P w"
      then obtain w where w: "s = w @ t" "list_all P w" by blast
      show "t \<in> set (iterate f (Suc n) s)"
      proof (cases w)
        case Nil
        with w show ?thesis by simp
      next
        case (Cons d v)
        with w \<open>s = c # u\<close> have "P c" "u = v @ t" "list_all P v" by auto
        with IH have "t \<in> set (iterate f n u)" by blast
        with \<open>P c\<close> \<open>s = c # u\<close> show ?thesis by (simp add: assms)
      qed
    qed
  qed
qed

lemma rests_Plus_Class:
  "t \<in> set (rests (Plus (Class P)) s) \<longleftrightarrow> (\<exists>w. s = w @ t \<and> w \<noteq> [] \<and> list_all P w)"
proof (cases s)
  case Nil
  then show ?thesis by simp
next
  case (Cons c u)
  have it: "t \<in> set (iterate (rests (Class P)) (length u) u) \<longleftrightarrow> (\<exists>w. u = w @ t \<and> list_all P w)"
    by (rule iterate_Class) simp_all
  show ?thesis
  proof
    assume "t \<in> set (rests (Plus (Class P)) s)"
    with Cons it obtain w where "P c" "u = w @ t" "list_all P w"
      by (auto split: if_splits)
    with Cons have "s = (c # w) @ t \<and> c # w \<noteq> [] \<and> list_all P (c # w)" by simp
    then show "\<exists>w. s = w @ t \<and> w \<noteq> [] \<and> list_all P w" by blast
  next
    assume "\<exists>w. s = w @ t \<and> w \<noteq> [] \<and> list_all P w"
    then obtain w where w: "s = w @ t" "w \<noteq> []" "list_all P w" by blast
    then obtain d v where "w = d # v" by (cases w) auto
    with w Cons have "P c" "u = v @ t" "list_all P v" by auto
    with it have "t \<in> set (iterate (rests (Class P)) (length u) u)" by blast
    with \<open>P c\<close> Cons show "t \<in> set (rests (Plus (Class P)) s)" by simp
  qed
qed

lemma iterate_words:
  assumes f: "\<And>s t. t \<in> set (f s) \<longleftrightarrow> (\<exists>u. s = u @ t \<and> L u)" and ne: "\<not> L []"
  shows "length s \<le> n \<Longrightarrow>
    t \<in> set (iterate f n s) \<longleftrightarrow> (\<exists>us. s = concat us @ t \<and> list_all L us)"
proof (induction n arbitrary: s)
  case 0
  then have "s = []" by simp
  show ?case
  proof
    assume "t \<in> set (iterate f 0 s)"
    with \<open>s = []\<close> have "s = concat [] @ t \<and> list_all L []" by simp
    then show "\<exists>us. s = concat us @ t \<and> list_all L us" by blast
  next
    assume "\<exists>us. s = concat us @ t \<and> list_all L us"
    with \<open>s = []\<close> show "t \<in> set (iterate f 0 s)" by auto
  qed
next
  case (Suc n)
  have step: "t \<in> set (iterate f (Suc n) s) \<longleftrightarrow>
      t = s \<or> (\<exists>m\<in>set (f s). length m < length s \<and> t \<in> set (iterate f n m))"
    by auto
  show ?case
  proof
    assume "t \<in> set (iterate f (Suc n) s)"
    with step consider "t = s" | m where "m \<in> set (f s)" "length m < length s" "t \<in> set (iterate f n m)"
      by blast
    then show "\<exists>us. s = concat us @ t \<and> list_all L us"
    proof cases
      case 1
      then have "s = concat [] @ t \<and> list_all L []" by simp
      then show ?thesis by blast
    next
      case 2
      from 2(1) f obtain u where u: "s = u @ m" "L u" by blast
      from 2(2) Suc.prems have "length m \<le> n" by simp
      from Suc.IH [OF this] 2(3) obtain us where "m = concat us @ t" "list_all L us" by blast
      with u have "s = concat (u # us) @ t \<and> list_all L (u # us)" by simp
      then show ?thesis by blast
    qed
  next
    assume "\<exists>us. s = concat us @ t \<and> list_all L us"
    then obtain us where us: "s = concat us @ t" "list_all L us" by blast
    show "t \<in> set (iterate f (Suc n) s)"
    proof (cases us)
      case Nil
      with us show ?thesis by simp
    next
      case (Cons u vs)
      define m where "m = concat vs @ t"
      from Cons us have s: "s = u @ m" and "L u" and vs: "list_all L vs" by (simp_all add: m_def)
      from \<open>L u\<close> ne have "u \<noteq> []" by auto
      with s have less: "length m < length s" by simp
      with Suc.prems have "length m \<le> n" by simp
      from Suc.IH [OF this] vs have "t \<in> set (iterate f n m)" unfolding m_def by blast
      moreover from s \<open>L u\<close> f have "m \<in> set (f s)" by blast
      ultimately show ?thesis using less step by blast
    qed
  qed
qed

lemma rests_Star:
  assumes "\<And>s t. t \<in> set (rests r s) \<longleftrightarrow> (\<exists>u. s = u @ t \<and> L u)" and "\<not> L []"
  shows "t \<in> set (rests (Star r) s) \<longleftrightarrow> (\<exists>us. s = concat us @ t \<and> list_all L us)"
  using iterate_words [of "rests r" L s "length s" t, OF assms] by simp

lemma rests_Seq:
  "t \<in> set (rests (Seq r1 r2) s) \<longleftrightarrow> (\<exists>m\<in>set (rests r1 s). t \<in> set (rests r2 m))"
  by auto

lemma rests_Class: "t \<in> set (rests (Class P) s) \<longleftrightarrow> (\<exists>c. s = c # t \<and> P c)"
  by (cases s) auto

lemma rests_Chr: "t \<in> set (rests (Chr c) s) \<longleftrightarrow> s = c # t"
  by (cases s) auto

lemma words_not_Nil: "words s \<noteq> []"
  by (induction s) (auto split: list.splits)

lemma words_no_space: "CHR '' '' \<notin> set w \<Longrightarrow> words w = [w]"
  by (induction w) auto

lemma words_append_space:
  "CHR '' '' \<notin> set w \<Longrightarrow> words (w @ CHR '' '' # s) = w # words s"
  by (induction w) auto

lemma words_separated:
  "CHR '' '' \<notin> set w \<Longrightarrow> list_all (\<lambda>x. CHR '' '' \<notin> set x) ws \<Longrightarrow>
     words (w @ concat (map ((#) CHR '' '') ws)) = w # ws"
proof (induction ws arbitrary: w)
  case Nil
  then show ?case by (simp add: words_no_space)
next
  case (Cons x xs)
  then show ?case by (simp add: words_append_space)
qed

lemma words_concat:
  "\<exists>w ws. words s = w # ws \<and> s = w @ concat (map ((#) CHR '' '') ws)"
proof (induction s)
  case Nil
  then show ?case by simp
next
  case (Cons c s)
  then obtain w ws where "words s = w # ws" "s = w @ concat (map ((#) CHR '' '') ws)"
    by blast
  then show ?case by (cases "c = CHR '' ''") auto
qed

lemma separated_iff:
  assumes W: "\<And>w. W w \<Longrightarrow> CHR '' '' \<notin> set w"
  shows "(\<exists>w us. s = w @ concat us \<and> W w \<and> list_all (\<lambda>u. \<exists>v. u = CHR '' '' # v \<and> W v) us)
     \<longleftrightarrow> list_all W (words s)"
proof
  assume "\<exists>w us. s = w @ concat us \<and> W w \<and> list_all (\<lambda>u. \<exists>v. u = CHR '' '' # v \<and> W v) us"
  then obtain w us where s: "s = w @ concat us" and w: "W w"
    and us: "list_all (\<lambda>u. \<exists>v. u = CHR '' '' # v \<and> W v) us" by blast
  from us have "us = map ((#) CHR '' '') (map tl us) \<and> list_all W (map tl us)"
    by (induction us) auto
  then obtain ws where ws: "us = map ((#) CHR '' '') ws" "list_all W ws" by blast
  from ws(2) W have "list_all (\<lambda>x. CHR '' '' \<notin> set x) ws" by (induction ws) auto
  with w W s ws have "words s = w # ws" by (simp add: words_separated)
  with w ws show "list_all W (words s)" by simp
next
  assume all: "list_all W (words s)"
  obtain w ws where ws: "words s = w # ws" "s = w @ concat (map ((#) CHR '' '') ws)"
    using words_concat by blast
  with all have "W w" "list_all W ws" by simp_all
  then have "list_all (\<lambda>u. \<exists>v. u = CHR '' '' # v \<and> W v) (map ((#) CHR '' '') ws)"
    by (induction ws) auto
  with ws \<open>W w\<close> show "\<exists>w us. s = w @ concat us \<and> W w \<and> list_all (\<lambda>u. \<exists>v. u = CHR '' '' # v \<and> W v) us"
    by blast
qed

lemma test_separated:
  assumes A: "\<And>s t. t \<in> set (rests A s) \<longleftrightarrow> (\<exists>w. s = w @ t \<and> W w)"
    and W: "\<And>w. W w \<Longrightarrow> CHR '' '' \<notin> set w"
  shows "[] \<in> set (concat (map (rests (Star (Seq (Chr CHR '' '') A))) (rests A s)))
     \<longleftrightarrow> list_all W (words s)"
proof -
  let ?L = "\<lambda>u. \<exists>v. u = CHR '' '' # v \<and> W v"
  have group: "t \<in> set (rests (Seq (Chr CHR '' '') A) s) \<longleftrightarrow> (\<exists>u. s = u @ t \<and> ?L u)" for s t
    unfolding rests_Seq Bex_def rests_Chr A by auto
  have star: "t \<in> set (rests (Star (Seq (Chr CHR '' '') A)) s)
      \<longleftrightarrow> (\<exists>us. s = concat us @ t \<and> list_all ?L us)" for s t
    by (rule rests_Star [where L = ?L, OF group]) simp
  have "[] \<in> set (concat (map (rests (Star (Seq (Chr CHR '' '') A))) (rests A s)))
      \<longleftrightarrow> (\<exists>m\<in>set (rests A s). [] \<in> set (rests (Star (Seq (Chr CHR '' '') A)) m))"
    by auto
  also have "\<dots> \<longleftrightarrow> (\<exists>w us. s = w @ concat us \<and> W w \<and> list_all ?L us)"
    unfolding Bex_def star A by auto
  also have "\<dots> \<longleftrightarrow> list_all W (words s)"
    by (rule separated_iff) (rule W)
  finally show ?thesis .
qed

lemma space_not_alphabetic: "\<not> alphabetic CHR '' ''"
  by (simp add: alphabetic_def upper_def lower_def code_def)

lemma alphabetic_no_space: "list_all alphabetic w \<Longrightarrow> CHR '' '' \<notin> set w"
  using space_not_alphabetic by (induction w) auto

lemma position_pattern_iff: "test position_pattern s \<longleftrightarrow> position_rule s"
proof -
  let ?W = "\<lambda>w. w \<noteq> [] \<and> list_all alphabetic w"
  have A: "t \<in> set (rests (Plus (Class (\<lambda>c. upper c \<or> lower c))) s) \<longleftrightarrow> (\<exists>w. s = w @ t \<and> ?W w)"
    for s t
    unfolding rests_Plus_Class alphabetic_def ..
  have "[] \<in> set (concat (map (rests (Star (Seq (Chr CHR '' '')
            (Plus (Class (\<lambda>c. upper c \<or> lower c))))))
          (rests (Plus (Class (\<lambda>c. upper c \<or> lower c))) s)))
      \<longleftrightarrow> list_all ?W (words s)"
    by (rule test_separated [where W = ?W, OF A]) (simp add: alphabetic_no_space)
  then show ?thesis
    unfolding test_def position_pattern_def position_rule_def rests.simps .
qed

lemma name_word_iff:
  "name_word w \<longleftrightarrow> (\<exists>c cs. w = c # cs \<and> upper c \<and> cs \<noteq> [] \<and> list_all alphabetic cs)"
  by (cases w) (simp_all add: name_word_def)

lemma name_word_no_space: "name_word w \<Longrightarrow> CHR '' '' \<notin> set w"
  using space_not_alphabetic alphabetic_no_space
  by (auto simp: name_word_iff alphabetic_def)

lemma name_pattern_iff: "test name_pattern s \<longleftrightarrow> employeeName_rule s"
proof -
  let ?A = "Seq (Class upper) (Plus (Class (\<lambda>c. lower c \<or> upper c)))"
  have letters: "(\<lambda>c. lower c \<or> upper c) = alphabetic"
    by (auto simp: alphabetic_def)
  have A: "t \<in> set (rests ?A s) \<longleftrightarrow> (\<exists>w. s = w @ t \<and> name_word w)" for s t
  proof
    assume "t \<in> set (rests ?A s)"
    then obtain c m where "s = c # m" "upper c" "t \<in> set (rests (Plus (Class alphabetic)) m)"
      unfolding rests_Seq Bex_def rests_Class letters by blast
    then obtain cs where "m = cs @ t" "cs \<noteq> []" "list_all alphabetic cs"
      unfolding rests_Plus_Class by blast
    with \<open>s = c # m\<close> \<open>upper c\<close> have "s = (c # cs) @ t \<and> name_word (c # cs)"
      by (simp add: name_word_def)
    then show "\<exists>w. s = w @ t \<and> name_word w" by blast
  next
    assume "\<exists>w. s = w @ t \<and> name_word w"
    then obtain c cs where s: "s = c # cs @ t" and c: "upper c" and cs: "cs \<noteq> []" "list_all alphabetic cs"
      unfolding name_word_iff by auto
    from cs have "t \<in> set (rests (Plus (Class alphabetic)) (cs @ t))"
      unfolding rests_Plus_Class by blast
    with s c show "t \<in> set (rests ?A s)"
      unfolding rests_Seq Bex_def rests_Class letters by blast
  qed
  have "[] \<in> set (concat (map (rests (Star (Seq (Chr CHR '' '') ?A))) (rests ?A s)))
      \<longleftrightarrow> list_all name_word (words s)"
    by (rule test_separated [where W = name_word, OF A]) (rule name_word_no_space)
  moreover have "set (rests name_pattern s)
      = set (concat (map (rests (Star (Seq (Chr CHR '' '') ?A))) (rests ?A s)))"
    by (simp add: name_pattern_def)
  ultimately show ?thesis
    by (simp add: test_def employeeName_rule_def)
qed

lemma empId_pattern_iff:
  "test empId_pattern s \<longleftrightarrow>
     (\<exists>a b c. s = ''ATS0'' @ [a, b, c] \<and> digit a \<and> digit b \<and> digit c \<and> [a, b, c] \<noteq> ''000'')"
  by (auto simp: test_def empId_pattern_def numeral_3_eq_3 split: list.splits if_splits)

lemma symbol_class:
  "(digit c \<or> whitespace c \<or> \<not> word c \<or> c = CHR ''_'') \<longleftrightarrow> \<not> (upper c \<or> lower c)"
  by (auto simp: digit_def whitespace_def word_def upper_def lower_def code_def)

lemma symbols_pattern_iff:
  "test symbols_pattern s \<longleftrightarrow> s \<noteq> [] \<and> list_all (\<lambda>c. \<not> (upper c \<or> lower c)) s"
proof -
  have "test symbols_pattern s \<longleftrightarrow> (\<exists>w. s = w @ [] \<and> w \<noteq> [] \<and> list_all (\<lambda>c. \<not> (upper c \<or> lower c)) w)"
    unfolding symbols_pattern_def test_def rests_Plus_Class symbol_class ..
  then show ?thesis by simp
qed

section \<open>Properties of the validation block\<close>

lemma in_range_iff:
  "(\<not> (isNaN E v \<or> js_lt E v lo \<or> js_gt E v hi)) \<longleftrightarrow>
     (\<exists>q. ToNumber E v = Finite q \<and> lo \<le> q \<and> q \<le> hi)"
  by (cases "ToNumber E v") (auto simp: isNaN_def js_lt_def js_gt_def)

lemma text_rule_iff:
  "(\<not> (falsy (JStr s) \<or> js_gt E (get_length (JStr s)) (of_nat n)
        \<or> test symbols_pattern (ToString E (JStr s)))) \<longleftrightarrow>
     (s \<noteq> [] \<and> length s \<le> n \<and> (\<exists>c. c \<in> set s \<and> (upper c \<or> lower c)))"
  by (auto simp: js_gt_def symbols_pattern_iff list_all_iff)

lemma employeeId_rule_iff: "test empId_pattern s \<longleftrightarrow> employeeId_rule s"
proof
  assume "test empId_pattern s"
  then show "employeeId_rule s"
    unfolding empId_pattern_iff by (auto simp: employeeId_rule_def)
next
  assume r: "employeeId_rule s"
  then have "length (drop 4 s) = Suc (Suc (Suc 0))"
    by (simp add: employeeId_rule_def)
  then obtain a b c where "drop 4 s = [a, b, c]"
    by (auto simp: length_Suc_conv simp del: length_drop)
  moreover have "s = take 4 s @ drop 4 s" by simp
  ultimately have "s = ''ATS0'' @ [a, b, c]" using r by (simp add: employeeId_rule_def)
  with r \<open>drop 4 s = [a, b, c]\<close> show "test empId_pattern s"
    unfolding empId_pattern_iff by (auto simp: employeeId_rule_def)
qed

lemma comment_rule_iff:
  "invalid_feedback E (JStr s) \<longleftrightarrow> \<not> comment_rule 500 s"
  "invalid_acknowledgment E (JStr s) \<longleftrightarrow> \<not> comment_rule 300 s"
  using text_rule_iff [of s E 500] text_rule_iff [of s E 300]
  by (auto simp: invalid_feedback_def invalid_acknowledgment_def comment_rule_def
      list_ex_iff alphabetic_def)

lemma check_empName_typed:
  "text_typed v \<Longrightarrow> check_empName E v = Inr (\<not> text_rule employeeName_rule v)"
  by (auto simp: text_typed_def check_empName_def text_rule_def invalid_empName_def
      name_pattern_iff employeeName_rule_def name_word_def split: parsed.splits jsval.splits)

lemma check_position_typed:
  "text_typed v \<Longrightarrow> check_position E v = Inr (\<not> text_rule position_rule v)"
  by (auto simp: text_typed_def check_position_def text_rule_def invalid_position_def
      position_pattern_iff position_rule_def split: parsed.splits jsval.splits)

lemma check_department_typed:
  "text_typed v \<Longrightarrow> check_department v = Inr (\<not> text_rule department_rule v)"
  by (auto simp: text_typed_def check_department_def text_rule_def invalid_department_def
      department_rule_def split: parsed.splits jsval.splits)

lemma check_empId_typed:
  "text_typed v \<Longrightarrow> check_empId E v = Inr (\<not> text_rule employeeId_rule v)"
  by (auto simp: text_typed_def check_empId_def text_rule_def invalid_empId_def
      employeeId_rule_iff employeeId_rule_def split: parsed.splits jsval.splits)

lemma check_feedback_typed:
  "text_typed v \<Longrightarrow> check_feedback E v = Inr (\<not> text_rule (comment_rule 500) v)"
  by (auto simp: text_typed_def check_feedback_def text_rule_def comment_rule_iff
      split: parsed.splits jsval.splits) (simp_all add: invalid_feedback_def)

lemma check_acknowledgment_typed:
  "text_typed v \<Longrightarrow> check_acknowledgment E v = Inr (\<not> text_rule (comment_rule 300) v)"
  by (auto simp: text_typed_def check_acknowledgment_def text_rule_def comment_rule_iff
      split: parsed.splits jsval.splits) (simp_all add: invalid_acknowledgment_def)

lemma amount_rule_iff:
  "amount_rule lo hi (parses E (Prim p)) \<longleftrightarrow>
     (\<exists>q. ToNumber E p = Finite q \<and> lo \<le> q \<and> q \<le> hi)"
  by (cases "ToNumber E p") (simp_all add: amount_rule_def parses_def)

lemma check_finalSalary_typed:
  "primitive v \<Longrightarrow>
     check_finalSalary E v = Inr (\<not> amount_rule 1000 1000000 (parses E v))"
  using in_range_iff [of E _ 1000 1000000]
  by (auto simp: primitive_def check_finalSalary_def and_then_def invalid_finalSalary_def
      amount_rule_iff split: parsed.splits)

lemma check_bonus_typed:
  "primitive v \<Longrightarrow> check_bonus E v = Inr (\<not> amount_rule 0 100000 (parses E v))"
  using in_range_iff [of E _ 0 100000]
  by (auto simp: primitive_def check_bonus_def and_then_def invalid_bonus_def
      amount_rule_iff split: parsed.splits)

lemma validate_first:
  assumes "typed body"
  shows "validate E body = Inr (map_option message (find (violates E body) rule_order))"
  using assms
  by (simp add: typed_def validate_def and_then_def rule_order_def violates_def
      check_empName_typed check_position_typed check_department_typed check_empId_typed
      check_feedback_typed check_acknowledgment_typed check_finalSalary_typed
      check_bonus_typed)

lemma message_inj: "message f = message g \<Longrightarrow> f = g"
  by (cases f; cases g; simp)

lemma all_fields: "f \<in> set rule_order"
  by (cases f) (simp_all add: rule_order_def)

lemma submit_invalid:
  "validate E body = Inr (Some m) \<Longrightarrow>
     submit E now db body = (Inr \<lparr>status = 400, json = JObject [(''error'', JString m)]\<rparr>, db)"
  by (simp add: submit_def)

lemma submit_Backend_invalid:
  "validate E body = Inr (Some m) \<Longrightarrow>
     submit_Backend E now db body =
       (Inr \<lparr>status = 400, json = JObject [(''error'', JString m)]\<rparr>, db)"
  by (simp add: submit_Backend_def)

lemma submit_throws:
  "validate E body = Inl e \<Longrightarrow> submit E now db body = (Inl e, db)"
  "validate E body = Inl e \<Longrightarrow> submit_Backend E now db body = (Inl e, db)"
  by (simp_all add: submit_def submit_Backend_def)

text \<open>
  On a body of the shape that the forms send, the validation block decides the rules of
  the specification in their order: it answers with the error of the earliest rule
  that the body violates, also when several rules fail; the eight errors are
  different, so the error names the field; the answer is a function of the body alone
  and the store stays as it was. Both versions of the server behave so.
\<close>

lemma typed_first_failing_rule:
  assumes "typed body"
  shows "validate E body = Inr (map_option message (find (violates E body) rule_order))
   \<and> inj message
   \<and> (\<forall>f. find (violates E body) rule_order = Some f \<longrightarrow>
        submit E now db body =
          (Inr \<lparr>status = 400, json = JObject [(''error'', JString (message f))]\<rparr>, db)
        \<and> submit_Backend E now db body =
          (Inr \<lparr>status = 400, json = JObject [(''error'', JString (message f))]\<rparr>, db))"
  using assms
  by (auto simp: validate_first submit_invalid submit_Backend_invalid intro: injI message_inj)

text \<open>
  Hence such a body that violates at least one rule is answered with status 400 and the
  error of a violated rule, and the store after the request is the store before it.
\<close>

lemma typed_invalid_rejected:
  assumes "typed body" and "violates E body f"
  shows "\<exists>g. find (violates E body) rule_order = Some g \<and> violates E body g
     \<and> submit E now db body =
         (Inr \<lparr>status = 400, json = JObject [(''error'', JString (message g))]\<rparr>, db)
     \<and> submit_Backend E now db body =
         (Inr \<lparr>status = 400, json = JObject [(''error'', JString (message g))]\<rparr>, db)"
proof -
  from assms all_fields [of f] have "find (violates E body) rule_order \<noteq> None"
    by (auto simp: find_None_iff)
  then obtain g where g: "find (violates E body) rule_order = Some g"
    by blast
  then have "violates E body g"
    by (auto simp: find_Some_iff)
  moreover from g assms have "validate E body = Inr (Some (message g))"
    by (simp add: validate_first)
  ultimately show ?thesis
    using g by (auto simp: submit_invalid submit_Backend_invalid)
qed

lemma throwing_body_empName:
  "throwing_body ''empName'' = Obj [(''toString'', Prim (JNum (Finite 1)))]"
  "throwing_body2 ''empName'' = Obj [(''toString'', Prim (JNum (Finite 1)))]"
  "throwing_body2 ''position'' = Prim (JStr ''R2 D2'')"
  by (simp_all add: throwing_body_def throwing_body2_def)

lemma validate_throws:
  "body ''empName'' = Obj [(''toString'', x)] \<Longrightarrow> validate E body = Inl TypeError"
  by (simp add: validate_def check_empName_def regex_test_def and_then_def)

text \<open>
  C3 fails on the code. The body \<^verbatim>\<open>{"empName": {"toString": 1}, ...}\<close>, whose other
  properties are those of the example, violates the rule of the name, which is the
  first rule it violates. No version of the server answers it with status 400: the
  first condition of the validation block converts the name to a string, the
  conversion throws a \<^verbatim>\<open>TypeError\<close>, no \<^verbatim>\<open>try\<close> encloses the block, and
  the handler ends without a response. The store stays as it was.
\<close>

theorem object_name_unanswered:
  "violates E throwing_body EmpName
   \<and> find (violates E throwing_body) rule_order = Some EmpName
   \<and> validate E throwing_body = Inl TypeError
   \<and> submit E now db throwing_body = (Inl TypeError, db)
   \<and> submit_Backend E now db throwing_body = (Inl TypeError, db)"
  by (simp add: violates_def text_rule_def rule_order_def throwing_body_empName
      validate_throws submit_throws)

lemma R2_D2: "\<not> position_rule ''R2 D2''"
  by code_simp

text \<open>
  C4 fails on the code. The body \<^verbatim>\<open>{"empName": {"toString": 1}, "position": "R2 D2", ...}\<close>
  violates the rules of the name and of the position, and the earliest rule it
  violates is the rule of the name. Validation returns no error for it, neither
  \<^verbatim>\<open>Invalid employee name\<close> nor any other: the first condition throws a
  \<^verbatim>\<open>TypeError\<close>, in both versions of the server.
\<close>

theorem object_name_no_first_rule:
  "violates E throwing_body2 EmpName \<and> violates E throwing_body2 Position
   \<and> find (violates E throwing_body2) rule_order = Some EmpName
   \<and> validate E throwing_body2 = Inl TypeError
   \<and> submit E now db throwing_body2 = (Inl TypeError, db)
   \<and> submit_Backend E now db throwing_body2 = (Inl TypeError, db)"
  by (simp add: violates_def text_rule_def rule_order_def throwing_body_empName
      validate_throws submit_throws R2_D2)

lemma code_decimal: "k < 10 \<Longrightarrow> code (decimal k) = 48 + k"
  by (simp add: code_def decimal_def)

lemma digit_decimal: "k < 10 \<Longrightarrow> digit (decimal k)"
  by (simp add: digit_def code_decimal)

lemma decimal_zero: "k < 10 \<Longrightarrow> decimal k = CHR ''0'' \<Longrightarrow> k = 0"
proof -
  assume k: "k < 10" and "decimal k = CHR ''0''"
  then have "code (decimal k) = code CHR ''0''" by simp
  with k show "k = 0" by (simp add: code_decimal) (simp add: code_def)
qed

lemma invalid_empId_JStr: "invalid_empId E (JStr s) \<longleftrightarrow> \<not> test empId_pattern s"
  by (auto simp: invalid_empId_def empId_pattern_iff)

text \<open>
  C5. A string passes the empId check if and only if it is \<^verbatim>\<open>ATS0\<close> followed by
  exactly three digits other than \<^verbatim>\<open>000\<close>: \<^verbatim>\<open>ATS0000\<close> is rejected,
  \<^verbatim>\<open>ATS0001\<close> to \<^verbatim>\<open>ATS0999\<close> are accepted, \<^verbatim>\<open>ATS01234\<close> and every
  string that is not seven characters long are rejected.
\<close>

theorem empId_accepted_iff:
  "((\<not> invalid_empId E (JStr s)) \<longleftrightarrow>
      (\<exists>d. s = ''ATS0'' @ d \<and> length d = 3 \<and> list_all digit d \<and> d \<noteq> ''000''))
   \<and> invalid_empId E (JStr ''ATS0000'')
   \<and> (\<forall>n. 1 \<le> n \<and> n \<le> 999 \<longrightarrow> \<not> invalid_empId E (JStr (ATS0 n)))
   \<and> invalid_empId E (JStr ''ATS01234'')
   \<and> (length s \<noteq> 7 \<longrightarrow> invalid_empId E (JStr s))"
proof -
  have iff: "(\<not> invalid_empId E (JStr t)) \<longleftrightarrow>
      (\<exists>d. t = ''ATS0'' @ d \<and> length d = 3 \<and> list_all digit d \<and> d \<noteq> ''000'')" for t
  proof
    assume "\<not> invalid_empId E (JStr t)"
    then obtain a b c where "t = ''ATS0'' @ [a, b, c]" "digit a" "digit b" "digit c"
      "[a, b, c] \<noteq> ''000''"
      unfolding invalid_empId_JStr empId_pattern_iff by blast
    then show "\<exists>d. t = ''ATS0'' @ d \<and> length d = 3 \<and> list_all digit d \<and> d \<noteq> ''000''"
      by (intro exI [of _ "[a, b, c]"]) simp
  next
    assume "\<exists>d. t = ''ATS0'' @ d \<and> length d = 3 \<and> list_all digit d \<and> d \<noteq> ''000''"
    then obtain d where d: "t = ''ATS0'' @ d" "length d = 3" "list_all digit d" "d \<noteq> ''000''"
      by blast
    from d(2) obtain a b c where "d = [a, b, c]"
      by (auto simp: numeral_3_eq_3 length_Suc_conv)
    with d show "\<not> invalid_empId E (JStr t)"
      unfolding invalid_empId_JStr empId_pattern_iff by auto
  qed
  have zero: "invalid_empId E (JStr ''ATS0000'')"
    using iff [of "''ATS0000''"] by auto
  have long: "invalid_empId E (JStr ''ATS01234'')"
    using iff [of "''ATS01234''"] by auto
  have range: "\<not> invalid_empId E (JStr (ATS0 n))" if "1 \<le> n \<and> n \<le> 999" for n
  proof -
    let ?d = "[decimal (n div 100), decimal (n div 10 mod 10), decimal (n mod 10)]"
    from that have lt: "n div 100 < 10" "n div 10 mod 10 < 10" "n mod 10 < 10" by auto
    then have "list_all digit ?d" by (simp add: digit_decimal)
    moreover have "?d \<noteq> ''000''"
    proof
      assume "?d = ''000''"
      then have eq: "decimal (n div 100) = CHR ''0''" "decimal (n div 10 mod 10) = CHR ''0''"
        "decimal (n mod 10) = CHR ''0''"
        by simp_all
      have "n div 10 mod 10 = 0" "n div 100 = 0" "n mod 10 = 0"
        using lt eq decimal_zero [of "n div 100"] decimal_zero [of "n div 10 mod 10"]
          decimal_zero [of "n mod 10"]
        by blast+
      then have "n < 10" by (simp_all add: div_eq_0_iff)
      with \<open>n mod 10 = 0\<close> that show False by simp
    qed
    ultimately show ?thesis
      unfolding iff ATS0_def by (intro exI [of _ ?d]) simp
  qed
  have len: "invalid_empId E (JStr s)" if "length s \<noteq> 7"
    using that iff [of s] by auto
  from iff zero range long len show ?thesis by blast
qed

lemma ATS0_42: "ATS0 42 = ''ATS0042''"
  by code_simp

theorem empId_accepted_iff_witness:
  "(1::nat) \<le> 42 \<and> (42::nat) \<le> 999 \<and> \<not> invalid_empId example_env (JStr ''ATS0042'')
   \<and> length ''ATS042'' \<noteq> 7 \<and> invalid_empId example_env (JStr ''ATS042'')"
  using empId_accepted_iff [of example_env "''ATS0042''",
      THEN conjunct2, THEN conjunct2, THEN conjunct1, rule_format, of 42]
    empId_accepted_iff [of example_env "''ATS042''"]
  by (simp add: ATS0_42)







section \<open>Properties of the submission\<close>

lemma and_then_InrE:
  assumes "and_then m f = Inr y"
  obtains x where "m = Inr x" and "f x = Inr y"
  using assms by (cases m) (simp_all add: and_then_def)

lemma not_null_Inr: "not_null p = Inr x \<longleftrightarrow> p = Some x"
  by (cases p) (simp_all add: not_null_def)

lemma text_in_Inr: "text_in p = Inr b \<Longrightarrow> b = p"
  by (cases p) (simp_all add: text_in_def split: if_splits)

lemma new_row_Inr:
  assumes "new_row i now b = Inr r"
  shows "row_id r = i \<and> created_at r = now \<and> employee_id_value b = Some (employee_id r)"
  using assms unfolding new_row_def
  by (elim and_then_InrE) (auto simp: not_null_Inr)

lemma bind_Inr:
  assumes "bind E ps = Inr b"
  shows "\<exists>v1 v2 v3 v4 v5 v6 v7 v8. ps = [v1, v2, v3, v4, v5, v6, v7, v8]
     \<and> employee_id_value b = prepareValue E v4"
proof -
  from assms obtain v1 v2 v3 v4 v5 v6 v7 v8 where ps: "ps = [v1, v2, v3, v4, v5, v6, v7, v8]"
    by (auto simp: bind_def split: list.splits)
  from assms [unfolded ps bind_def list.case] show ?thesis
    unfolding ps by (elim and_then_InrE) (auto dest: text_in_Inr)
qed

lemma coerce_Inr:
  assumes "coerce b = Inr c"
  shows "varchar 7 (employee_id_value b) = Inr (employee_id_value c)"
  using assms unfolding coerce_def
  by (elim and_then_InrE) auto

lemma stored_row_Inr:
  assumes "stored_row E i now ps = Inr r"
  obtains b where "assign E ps = Inr b" and "new_row i now b = Inr r"
  using assms unfolding stored_row_def by (elim and_then_InrE)

lemma stored_row_id: "stored_row E i now ps = Inr r \<Longrightarrow> row_id r = i"
  by (elim stored_row_Inr) (simp add: new_row_Inr)

lemma step_None:
  "and_then c (\<lambda>invalid. if invalid then Inr (Some m) else k) = Inr None
     \<longleftrightarrow> c = Inr False \<and> k = Inr None"
  by (cases c) (auto simp: and_then_def)

lemma validate_None_iff:
  "validate E body = Inr None \<longleftrightarrow>
     check_empName E (body ''empName'') = Inr False
     \<and> check_position E (body ''position'') = Inr False
     \<and> check_department (body ''department'') = Inr False
     \<and> check_empId E (body ''empId'') = Inr False
     \<and> check_feedback E (body ''feedback'') = Inr False
     \<and> check_acknowledgment E (body ''acknowledgment'') = Inr False
     \<and> check_finalSalary E (body ''finalSalary'') = Inr False
     \<and> check_bonus E (body ''bonus'') = Inr False"
  unfolding validate_def step_None by simp

lemma prepareValue_truthy: "\<not> falsy p \<Longrightarrow> prepareValue E (Prim p) = Some (ToString E p)"
  by (cases p) simp_all

lemma test_empId_length: "test empId_pattern s \<Longrightarrow> length s = 7"
  by (auto simp: empId_pattern_iff)

lemma stored_employee_id:
  assumes "validate E body = Inr None" and "body ''empId'' = Prim p"
    and "stored_row E i now (values_of body) = Inr r"
  shows "employee_id r = ToString E p"
proof -
  from assms(1,2) have ok: "\<not> falsy p" "test empId_pattern (ToString E p)"
    by (auto simp: validate_None_iff check_empId_def invalid_empId_def)
  from assms(3) obtain b where b: "assign E (values_of body) = Inr b" "new_row i now b = Inr r"
    by (rule stored_row_Inr)
  from b(1) obtain a where a: "bind E (values_of body) = Inr a" "coerce a = Inr b"
    unfolding assign_def by (elim and_then_InrE)
  from bind_Inr [OF a(1)] assms(2) ok have "employee_id_value a = Some (ToString E p)"
    by (auto simp: values_of_def prepareValue_truthy)
  with coerce_Inr [OF a(2)] ok have "employee_id_value b = Some (ToString E p)"
    by (simp add: varchar_def test_empId_length)
  with new_row_Inr [OF b(2)] show ?thesis by simp
qed

lemma insert_duplicate:
  assumes "reachable db" and "offboarding_id_seq db < 2147483647"
    and "stored_row E (offboarding_id_seq db + 1) now ps = Inr r"
    and "employee_id r \<in> set (map employee_id (offboarding db))"
  shows "insert_offboarding E now db ps =
    (Inl (SqlState ''23505''), db\<lparr>offboarding_id_seq := offboarding_id_seq db + 1\<rparr>)"
proof -
  from assms(3) obtain b where "assign E ps = Inr b"
    "new_row (offboarding_id_seq db + 1) now b = Inr r"
    by (rule stored_row_Inr)
  with assms(1,2,4) show ?thesis by (simp add: insert_offboarding_def Let_def)
qed

lemma insert_fresh:
  assumes "reachable db" and "offboarding_id_seq db < 2147483647"
    and "stored_row E (offboarding_id_seq db + 1) now ps = Inr r"
    and "employee_id r \<notin> set (map employee_id (offboarding db))"
    and "row_id r \<notin> set (map row_id (offboarding db))"
  shows "insert_offboarding E now db ps =
    (Inr (offboarding_id_seq db + 1),
     db\<lparr>offboarding_id_seq := offboarding_id_seq db + 1, offboarding := offboarding db @ [r]\<rparr>)"
proof -
  from assms(3) obtain b where "assign E ps = Inr b"
    "new_row (offboarding_id_seq db + 1) now b = Inr r"
    by (rule stored_row_Inr)
  with assms(1,2,4,5) show ?thesis by (simp add: insert_offboarding_def Let_def)
qed

lemma one_row: "distinct (map f xs) \<Longrightarrow> k \<in> set (map f xs) \<Longrightarrow> length (filter (\<lambda>x. f x = k) xs) = 1"
proof (induction xs)
  case Nil
  then show ?case by simp
next
  case (Cons x xs)
  show ?case
  proof (cases "f x = k")
    case True
    have "f y \<noteq> k" if "y \<in> set xs" for y
    proof
      assume "f y = k"
      with that True have "f x \<in> f ` set xs" by (metis imageI)
      with Cons.prems(1) show False by simp
    qed
    then have "filter (\<lambda>y. f y = k) xs = []"
      by (simp add: filter_empty_conv)
    with True show ?thesis by simp
  next
    case False
    with Cons show ?thesis by simp
  qed
qed

text \<open>
  Submissions keep the table consistent, so every table that the service has filled,
  starting from the empty one, is.
\<close>

lemma insert_rows:
  "offboarding (snd (insert_offboarding E now db ps)) = offboarding db
   \<or> (\<exists>r. stored_row E (offboarding_id_seq db + 1) now ps = Inr r
        \<and> row_id r \<notin> set (map row_id (offboarding db))
        \<and> employee_id r \<notin> set (map employee_id (offboarding db))
        \<and> offboarding (snd (insert_offboarding E now db ps)) = offboarding db @ [r])"
  by (auto simp: insert_offboarding_def stored_row_def and_then_def Let_def
      split: sum.splits)

lemma insert_seq:
  "offboarding_id_seq (snd (insert_offboarding E now db ps)) = offboarding_id_seq db
     \<and> offboarding (snd (insert_offboarding E now db ps)) = offboarding db
   \<or> offboarding_id_seq (snd (insert_offboarding E now db ps)) = offboarding_id_seq db + 1"
  by (auto simp: insert_offboarding_def Let_def split: sum.splits)

lemma insert_consistent:
  assumes "consistent db"
  shows "consistent (snd (insert_offboarding E now db ps))"
proof -
  let ?db = "snd (insert_offboarding E now db ps)"
  from insert_seq [of E now db ps]
  have seq: "offboarding_id_seq db \<le> offboarding_id_seq ?db" by auto
  from insert_rows [of E now db ps] show ?thesis
  proof
    assume same: "offboarding ?db = offboarding db"
    with assms seq show ?thesis
      by (auto simp: consistent_def list_all_iff)
  next
    assume "\<exists>r. stored_row E (offboarding_id_seq db + 1) now ps = Inr r
        \<and> row_id r \<notin> set (map row_id (offboarding db))
        \<and> employee_id r \<notin> set (map employee_id (offboarding db))
        \<and> offboarding ?db = offboarding db @ [r]"
    then obtain r where r: "stored_row E (offboarding_id_seq db + 1) now ps = Inr r"
      "row_id r \<notin> set (map row_id (offboarding db))"
      "employee_id r \<notin> set (map employee_id (offboarding db))"
      "offboarding ?db = offboarding db @ [r]"
      by blast
    from r(1) have id: "row_id r = offboarding_id_seq db + 1"
      by (rule stored_row_id)
    from insert_seq [of E now db ps] r(4)
    have "offboarding_id_seq ?db = offboarding_id_seq db + 1" by auto
    with assms r id show ?thesis
      by (auto simp: consistent_def list_all_iff)
  qed
qed

lemma submit_consistent:
  assumes "consistent db"
  shows "consistent (snd (submit E now db body))"
    and "consistent (snd (submit_Backend E now db body))"
  using assms insert_consistent [OF assms, of E now "values_of body"]
  by (auto simp: submit_def submit_Backend_def split: option.splits sum.splits prod.splits)

lemma valid_iff_satisfies:
  assumes "typed body"
  shows "validate E body = Inr None \<longleftrightarrow> (\<forall>f. satisfies E body f)"
proof -
  have "validate E body = Inr None \<longleftrightarrow> find (violates E body) rule_order = None"
    by (simp add: validate_first [OF assms])
  also have "\<dots> \<longleftrightarrow> (\<forall>f. \<not> violates E body f)"
    using all_fields by (auto simp: find_None_iff)
  finally show ?thesis by (simp add: violates_def)
qed

text \<open>
  The columns accept every validated body of the shape that the forms send whose name
  and position have at most 30 characters, whose feedback and acknowledgment are
  free of the character 0, and whose two amounts are texts that
  \<^verbatim>\<open>NUMERIC(10, 2)\<close> reads and holds.
\<close>

lemma words_chars:
  "list_all (list_all P) (words s) \<Longrightarrow> list_all (\<lambda>c. P c \<or> c = CHR '' '') s"
proof (induction s)
  case Nil
  then show ?case by simp
next
  case (Cons c s)
  obtain w ws where ws: "words s = w # ws"
    using words_not_Nil [of s] by (cases "words s") auto
  with Cons show ?case by (cases "c = CHR '' ''") auto
qed

lemma zero_not_alphabetic: "\<not> alphabetic (CHR 0x00)" "\<not> digit (CHR 0x00)"
  by (simp_all add: alphabetic_def upper_def lower_def digit_def code_def)

lemma alphabetic_words_no_zero:
  assumes "list_all (list_all alphabetic) (words s)"
  shows "CHR 0x00 \<notin> set s"
proof
  assume "CHR 0x00 \<in> set s"
  with words_chars [OF assms] have "alphabetic (CHR 0x00) \<or> CHR 0x00 = CHR '' ''"
    by (auto simp: list_all_iff)
  then show False by (simp add: zero_not_alphabetic)
qed

lemma name_word_alphabetic: "name_word w \<Longrightarrow> list_all alphabetic w"
  by (auto simp: name_word_iff alphabetic_def)

lemma employeeName_rule_no_zero:
  assumes "employeeName_rule s"
  shows "CHR 0x00 \<notin> set s"
proof -
  have "list_all (list_all alphabetic) ws" if "list_all name_word ws" for ws
    using that by (induction ws) (simp_all add: name_word_alphabetic)
  with assms show ?thesis
    unfolding employeeName_rule_def by (intro alphabetic_words_no_zero)
qed

lemma position_rule_no_zero: "position_rule s \<Longrightarrow> CHR 0x00 \<notin> set s"
  unfolding position_rule_def
  by (rule alphabetic_words_no_zero) (auto simp: list_all_iff)

lemma department_rule_no_zero: "department_rule s \<Longrightarrow> CHR 0x00 \<notin> set s \<and> length s \<le> 50"
  by (auto simp: department_rule_def)

lemma employeeId_rule_no_zero:
  assumes "employeeId_rule s"
  shows "CHR 0x00 \<notin> set s \<and> length s = 7"
proof -
  from assms obtain a b c where "s = ''ATS0'' @ [a, b, c]" "digit a" "digit b" "digit c"
    unfolding employeeId_rule_iff [symmetric] empId_pattern_iff by blast
  then show ?thesis using zero_not_alphabetic(2) by auto
qed

lemma text_rule_Some: "text_rule R v \<Longrightarrow> \<exists>s. v = Prim (JStr s) \<and> R s"
  by (cases v rule: text_of.cases) (simp_all add: text_rule_def)

lemma text_in_ok: "CHR 0x00 \<notin> set s \<Longrightarrow> text_in (Some s) = Inr (Some s)"
  by (simp add: text_in_def)

lemma varchar_ok: "length s \<le> n \<Longrightarrow> varchar n (Some s) = Inr (Some s)"
  by (simp add: varchar_def)

lemma numeric_ok:
  assumes "CHR 0x00 \<notin> set t" and "numeric_in E t = Some (Finite q)"
    and "\<bar>round2 q\<bar> < 100000000"
  shows "numeric_input E (Some t) = Inr (Some (Finite q))"
    and "numeric_10_2 (Some (Finite q)) = Inr (Some (Finite (round2 q)))"
  using assms by (simp_all add: numeric_input_def text_in_def and_then_def numeric_10_2_def)

lemma columns_accept:
  assumes valid: "validate E body = Inr None" and typed: "typed body"
    and name: "text_of (body ''empName'') = Some n" "length n \<le> 30"
    and position: "text_of (body ''position'') = Some p" "length p \<le> 30"
    and feedback: "text_of (body ''feedback'') = Some f" "CHR 0x00 \<notin> set f"
    and acknowledgment: "text_of (body ''acknowledgment'') = Some a" "CHR 0x00 \<notin> set a"
    and salary: "prepareValue E (body ''finalSalary'') = Some t6" "CHR 0x00 \<notin> set t6"
      "numeric_in E t6 = Some (Finite q6)" "\<bar>round2 q6\<bar> < 100000000"
    and bonus: "prepareValue E (body ''bonus'') = Some t7" "CHR 0x00 \<notin> set t7"
      "numeric_in E t7 = Some (Finite q7)" "\<bar>round2 q7\<bar> < 100000000"
  shows "\<exists>r. stored_row E i now (values_of body) = Inr r"
proof -
  from valid typed have sat: "satisfies E body g" for g
    by (simp add: valid_iff_satisfies)
  from sat [of EmpName] name have n: "body ''empName'' = Prim (JStr n)" "CHR 0x00 \<notin> set n"
    by (auto dest!: text_rule_Some simp: employeeName_rule_no_zero)
  from sat [of Position] position have p: "body ''position'' = Prim (JStr p)" "CHR 0x00 \<notin> set p"
    by (auto dest!: text_rule_Some simp: position_rule_no_zero)
  from sat [of Department] obtain d where d: "body ''department'' = Prim (JStr d)"
    "CHR 0x00 \<notin> set d" "length d \<le> 50"
    by (auto dest!: text_rule_Some department_rule_no_zero)
  from sat [of EmpId] obtain e where e: "body ''empId'' = Prim (JStr e)"
    "CHR 0x00 \<notin> set e" "length e = 7"
    by (auto dest!: text_rule_Some employeeId_rule_no_zero)
  from sat [of Feedback] feedback have f: "body ''feedback'' = Prim (JStr f)"
    by (auto dest!: text_rule_Some)
  from sat [of Acknowledgment] acknowledgment have a: "body ''acknowledgment'' = Prim (JStr a)"
    by (auto dest!: text_rule_Some)
  have "bind E (values_of body) =
      Inr \<lparr>employee_name_value = Some n, position_value = Some p, department_value = Some d,
           employee_id_value = Some e, feedback_value = Some f,
           final_salary_value = Some (Finite q6), bonus_value = Some (Finite q7),
           acknowledgment_value = Some a\<rparr>"
    using n p d e f a feedback(2) acknowledgment(2) salary bonus
    by (simp add: bind_def values_of_def text_in_ok numeric_ok and_then_def)
  moreover have "coerce
      \<lparr>employee_name_value = Some n, position_value = Some p, department_value = Some d,
       employee_id_value = Some e, feedback_value = Some f,
       final_salary_value = Some (Finite q6), bonus_value = Some (Finite q7),
       acknowledgment_value = Some a\<rparr> =
      Inr \<lparr>employee_name_value = Some n, position_value = Some p, department_value = Some d,
           employee_id_value = Some e, feedback_value = Some f,
           final_salary_value = Some (Finite (round2 q6)),
           bonus_value = Some (Finite (round2 q7)), acknowledgment_value = Some a\<rparr>"
    using name(2) position(2) d(3) e(3) salary(4) bonus(4)
    by (simp add: coerce_def varchar_ok numeric_10_2_def and_then_def)
  ultimately show ?thesis
    by (simp add: stored_row_def assign_def and_then_def new_row_def not_null_def)
qed

text \<open>
  C1 (amended). While the database is reachable and its sequence not exhausted, a
  request that passes validation, whose values the columns accept and whose empId is
  the \<^verbatim>\<open>employee_id\<close> of a stored row is answered with the body
  \<^verbatim>\<open>{error: "Employee ID already exists"}\<close>, under status 409 by
  \<^verbatim>\<open>src/unnamed/part_000\<close> and under status 400 by
  \<^verbatim>\<open>src/Backend/server.js\<close>; the rows of the table are unchanged and exactly one
  of them has that identifier. The identifier is the one that the row of the request
  would store, which is the empId of the request when that is a primitive value.
\<close>

theorem duplicate_employee_id:
  assumes "validate E body = Inr None"
    and "reachable db" and "offboarding_id_seq db < 2147483647"
    and "stored_row E (offboarding_id_seq db + 1) now (values_of body) = Inr r"
    and "employee_id r \<in> set (map employee_id (offboarding db))"
    and "consistent db"
  shows "fst (submit E now db body) =
      Inr \<lparr>status = 409, json = JObject [(''error'', JString ''Employee ID already exists'')]\<rparr>
    \<and> fst (submit_Backend E now db body) =
      Inr \<lparr>status = 400, json = JObject [(''error'', JString ''Employee ID already exists'')]\<rparr>
    \<and> offboarding (snd (submit E now db body)) = offboarding db
    \<and> offboarding (snd (submit_Backend E now db body)) = offboarding db
    \<and> length (filter (\<lambda>x. employee_id x = employee_id r)
         (offboarding (snd (submit E now db body)))) = 1
    \<and> (\<forall>p. body ''empId'' = Prim p \<longrightarrow> employee_id r = ToString E p)"
proof -
  from insert_duplicate [OF assms(2,3,4,5)]
  have ins: "insert_offboarding E now db (values_of body) =
    (Inl (SqlState ''23505''), db\<lparr>offboarding_id_seq := offboarding_id_seq db + 1\<rparr>)" .
  from assms(5,6)
  have "length (filter (\<lambda>x. employee_id x = employee_id r) (offboarding db)) = 1"
    by (intro one_row) (simp_all add: consistent_def)
  moreover have "employee_id r = ToString E p" if "body ''empId'' = Prim p" for p
    using assms(1) that assms(4) by (rule stored_employee_id)
  ultimately show ?thesis
    using assms(1) ins by (simp add: submit_def submit_Backend_def)
qed

lemma example_valid: "validate example_env example_body = Inr None"
  by code_simp

lemma example_new_row:
  "stored_row example_env 2 18 (values_of example_body)
     = Inr (example_row\<lparr>row_id := 2, created_at := 18\<rparr>)"
  by code_simp

lemma example_store_consistent: "consistent example_store"
  by (simp add: consistent_def example_store_def example_row_def)

theorem duplicate_employee_id_witness:
  "validate example_env example_body = Inr None
   \<and> reachable example_store \<and> offboarding_id_seq example_store < 2147483647
   \<and> stored_row example_env (offboarding_id_seq example_store + 1) 18 (values_of example_body)
       = Inr (example_row\<lparr>row_id := 2, created_at := 18\<rparr>)
   \<and> employee_id (example_row\<lparr>row_id := 2, created_at := 18\<rparr>)
       \<in> set (map employee_id (offboarding example_store))
   \<and> consistent example_store
   \<and> fst (submit example_env 18 example_store example_body) =
       Inr \<lparr>status = 409, json = JObject [(''error'', JString ''Employee ID already exists'')]\<rparr>
   \<and> offboarding (snd (submit example_env 18 example_store example_body)) = [example_row]
   \<and> example_body ''empId'' = Prim (JStr ''ATS0123'')
   \<and> employee_id (example_row\<lparr>row_id := 2, created_at := 18\<rparr>) = ''ATS0123''"
proof -
  have seq: "offboarding_id_seq example_store + 1 = 2" "reachable example_store"
    "offboarding_id_seq example_store < 2147483647" "offboarding example_store = [example_row]"
    by (simp_all add: example_store_def)
  have dup: "employee_id (example_row\<lparr>row_id := 2, created_at := 18\<rparr>)
       \<in> set (map employee_id (offboarding example_store))"
    by (simp add: example_store_def)
  have row: "stored_row example_env (offboarding_id_seq example_store + 1) 18
       (values_of example_body) = Inr (example_row\<lparr>row_id := 2, created_at := 18\<rparr>)"
    unfolding seq by (rule example_new_row)
  have id: "example_body ''empId'' = Prim (JStr ''ATS0123'')"
    by (simp add: example_body_def)
  from duplicate_employee_id [OF example_valid seq(2,3) row dup example_store_consistent]
  show ?thesis
    using example_valid seq(2,3,4) row dup example_store_consistent id by simp
qed

text \<open>
  The claim as stated (always 409) fails: \<^verbatim>\<open>src/Backend/server.js\<close> answers the
  duplicate with 400, and \<^verbatim>\<open>src/unnamed/part_000\<close> answers 500 when the name
  of the duplicate exceeds \<^verbatim>\<open>VARCHAR(30)\<close>, when its feedback contains the
  character 0, or when the database is unreachable or the sequence exhausted.
\<close>

lemma example_Backend_duplicate:
  "fst (submit_Backend example_env 18 example_store example_body) =
     Inr \<lparr>status = 400, json = JObject [(''error'', JString ''Employee ID already exists'')]\<rparr>"
  by code_simp

lemma long_name_valid:
  "validate example_env (example_body(''empName'' := Prim (JStr long_name))) = Inr None"
  by code_simp

lemma long_name_duplicate:
  "fst (submit example_env 18 example_store
     (example_body(''empName'' := Prim (JStr long_name)))) =
     Inr \<lparr>status = 500, json = JObject [(''error'', JString ''Internal server error'')]\<rparr>"
  by code_simp

lemma zero_feedback_valid: "validate example_env zero_feedback = Inr None"
  by code_simp

lemma zero_feedback_duplicate:
  "fst (submit example_env 18 example_store zero_feedback) =
     Inr \<lparr>status = 500, json = JObject [(''error'', JString ''Internal server error'')]\<rparr>"
  by code_simp

lemma unreachable_duplicate:
  "fst (submit example_env 18 (example_store\<lparr>reachable := False\<rparr>) example_body) =
     Inr \<lparr>status = 500, json = JObject [(''error'', JString ''Internal server error'')]\<rparr>"
  by code_simp

lemma exhausted_duplicate:
  "fst (submit example_env 18 (example_store\<lparr>offboarding_id_seq := 2147483647\<rparr>)
     example_body) =
     Inr \<lparr>status = 500, json = JObject [(''error'', JString ''Internal server error'')]\<rparr>"
  by code_simp

lemma example_ids:
  "example_body ''empId'' = Prim (JStr ''ATS0123'')"
  "(example_body(''empName'' := Prim (JStr long_name))) ''empId'' = Prim (JStr ''ATS0123'')"
  "zero_feedback ''empId'' = Prim (JStr ''ATS0123'')"
  "''ATS0123'' \<in> set (map employee_id (offboarding example_store))"
  "offboarding empty_store = []"
  by (simp_all add: example_body_def zero_feedback_def example_store_def example_row_def
      empty_store_def)

theorem duplicate_employee_id_counterexample:
  "validate example_env example_body = Inr None
   \<and> example_body ''empId'' = Prim (JStr ''ATS0123'')
   \<and> ''ATS0123'' \<in> set (map employee_id (offboarding example_store))
   \<and> fst (submit_Backend example_env 18 example_store example_body) =
       Inr \<lparr>status = 400, json = JObject [(''error'', JString ''Employee ID already exists'')]\<rparr>
   \<and> validate example_env (example_body(''empName'' := Prim (JStr long_name))) = Inr None
   \<and> (example_body(''empName'' := Prim (JStr long_name))) ''empId'' = Prim (JStr ''ATS0123'')
   \<and> fst (submit example_env 18 example_store
        (example_body(''empName'' := Prim (JStr long_name)))) =
       Inr \<lparr>status = 500, json = JObject [(''error'', JString ''Internal server error'')]\<rparr>
   \<and> validate example_env zero_feedback = Inr None
   \<and> zero_feedback ''empId'' = Prim (JStr ''ATS0123'')
   \<and> fst (submit example_env 18 example_store zero_feedback) =
       Inr \<lparr>status = 500, json = JObject [(''error'', JString ''Internal server error'')]\<rparr>
   \<and> fst (submit example_env 18 (example_store\<lparr>reachable := False\<rparr>) example_body) =
       Inr \<lparr>status = 500, json = JObject [(''error'', JString ''Internal server error'')]\<rparr>
   \<and> fst (submit example_env 18 (example_store\<lparr>offboarding_id_seq := 2147483647\<rparr>)
        example_body) =
       Inr \<lparr>status = 500, json = JObject [(''error'', JString ''Internal server error'')]\<rparr>"
  using example_valid example_Backend_duplicate long_name_valid long_name_duplicate
    zero_feedback_valid zero_feedback_duplicate unreachable_duplicate exhausted_duplicate
    example_ids
  by simp

text \<open>
  C2 (amended). While the database is reachable and its sequence not exhausted, a
  request that passes validation, whose values the columns accept and whose empId is
  not in a consistent table is answered with a \<^verbatim>\<open>message\<close> and the new
  \<^verbatim>\<open>id\<close>, under status 201 by \<^verbatim>\<open>src/unnamed/part_000\<close> and under status
  200 by \<^verbatim>\<open>src/Backend/server.js\<close>; the new row is appended and its
  \<^verbatim>\<open>id\<close> is greater than every \<^verbatim>\<open>id\<close> before. The identifier of the
  new row is the empId of the request when that is a primitive value.
\<close>

theorem valid_submission_accepted:
  assumes "validate E body = Inr None"
    and "reachable db" and "offboarding_id_seq db < 2147483647"
    and "stored_row E (offboarding_id_seq db + 1) now (values_of body) = Inr r"
    and "employee_id r \<notin> set (map employee_id (offboarding db))"
    and "consistent db"
  shows "submit E now db body =
      (Inr \<lparr>status = 201,
        json = JObject [(''message'', JString ''Offboarding form submitted successfully''),
                        (''id'', JInteger (offboarding_id_seq db + 1))]\<rparr>,
       db\<lparr>offboarding_id_seq := offboarding_id_seq db + 1,
           offboarding := offboarding db @ [r]\<rparr>)
    \<and> submit_Backend E now db body =
      (Inr \<lparr>status = 200,
        json = JObject [(''message'', JString ''Offboarding form submitted successfully''),
                        (''id'', JInteger (offboarding_id_seq db + 1))]\<rparr>,
       db\<lparr>offboarding_id_seq := offboarding_id_seq db + 1,
           offboarding := offboarding db @ [r]\<rparr>)
    \<and> row_id r = offboarding_id_seq db + 1
    \<and> list_all (\<lambda>x. row_id x < row_id r) (offboarding db)
    \<and> (\<forall>p. body ''empId'' = Prim p \<longrightarrow> employee_id r = ToString E p)"
proof -
  from assms(4) have id: "row_id r = offboarding_id_seq db + 1"
    by (rule stored_row_id)
  from assms(6) have below: "list_all (\<lambda>x. row_id x < row_id r) (offboarding db)"
    unfolding id consistent_def list_all_iff by auto
  then have fresh: "row_id r \<notin> set (map row_id (offboarding db))"
    by (auto simp: list_all_iff)
  have "employee_id r = ToString E p" if "body ''empId'' = Prim p" for p
    using assms(1) that assms(4) by (rule stored_employee_id)
  with insert_fresh [OF assms(2,3,4,5) fresh] assms(1) id below show ?thesis
    by (simp add: submit_def submit_Backend_def)
qed

lemma example_first_row:
  "stored_row example_env 1 17 (values_of example_body) = Inr example_row"
  by code_simp

lemma empty_store_consistent: "consistent empty_store"
  by (simp add: consistent_def empty_store_def)

theorem valid_submission_accepted_witness:
  "validate example_env example_body = Inr None
   \<and> reachable empty_store \<and> offboarding_id_seq empty_store < 2147483647
   \<and> stored_row example_env (offboarding_id_seq empty_store + 1) 17 (values_of example_body)
       = Inr example_row
   \<and> employee_id example_row \<notin> set (map employee_id (offboarding empty_store))
   \<and> consistent empty_store
   \<and> submit example_env 17 empty_store example_body =
       (Inr \<lparr>status = 201,
         json = JObject [(''message'', JString ''Offboarding form submitted successfully''),
                         (''id'', JInteger 1)]\<rparr>,
        example_store)
   \<and> example_body ''empId'' = Prim (JStr ''ATS0123'')
   \<and> employee_id example_row = ''ATS0123''"
proof -
  have seq: "offboarding_id_seq empty_store + 1 = 1" "reachable empty_store"
    "offboarding_id_seq empty_store < 2147483647"
    by (simp_all add: empty_store_def)
  have fresh: "employee_id example_row \<notin> set (map employee_id (offboarding empty_store))"
    by (simp add: empty_store_def)
  have row: "stored_row example_env (offboarding_id_seq empty_store + 1) 17
       (values_of example_body) = Inr example_row"
    unfolding seq by (rule example_first_row)
  have id: "example_body ''empId'' = Prim (JStr ''ATS0123'')"
    by (simp add: example_body_def)
  from valid_submission_accepted [OF example_valid seq(2,3) row fresh empty_store_consistent]
  show ?thesis
    using example_valid seq(2,3) row fresh empty_store_consistent id
    by (simp add: empty_store_def example_store_def)
qed

text \<open>
  The claim as stated (always 201) fails: \<^verbatim>\<open>src/Backend/server.js\<close> answers 200,
  and \<^verbatim>\<open>src/unnamed/part_000\<close> answers 500 to a validated body whose name is
  longer than the column, whose feedback contains the character 0 or whose bonus is
  \<^verbatim>\<open>null\<close>, and to any body while the database is unreachable or the sequence
  exhausted.
\<close>

lemma example_Backend_created:
  "fst (submit_Backend example_env 17 empty_store example_body) =
     Inr \<lparr>status = 200,
       json = JObject [(''message'', JString ''Offboarding form submitted successfully''),
                       (''id'', JInteger 1)]\<rparr>"
  by code_simp

lemma long_name_rejected:
  "fst (submit example_env 17 empty_store
     (example_body(''empName'' := Prim (JStr long_name)))) =
     Inr \<lparr>status = 500, json = JObject [(''error'', JString ''Internal server error'')]\<rparr>"
  by code_simp

lemma zero_feedback_rejected:
  "fst (submit example_env 17 empty_store zero_feedback) =
     Inr \<lparr>status = 500, json = JObject [(''error'', JString ''Internal server error'')]\<rparr>"
  by code_simp

lemma null_bonus_valid:
  "validate example_env (example_body(''bonus'' := Prim JNull)) = Inr None"
  by code_simp

lemma null_bonus_rejected:
  "fst (submit example_env 17 empty_store (example_body(''bonus'' := Prim JNull))) =
     Inr \<lparr>status = 500, json = JObject [(''error'', JString ''Internal server error'')]\<rparr>"
  by code_simp

lemma unreachable_rejected:
  "fst (submit example_env 17 (empty_store\<lparr>reachable := False\<rparr>) example_body) =
     Inr \<lparr>status = 500, json = JObject [(''error'', JString ''Internal server error'')]\<rparr>"
  by code_simp

lemma exhausted_rejected:
  "fst (submit example_env 17 (empty_store\<lparr>offboarding_id_seq := 2147483647\<rparr>)
     example_body) =
     Inr \<lparr>status = 500, json = JObject [(''error'', JString ''Internal server error'')]\<rparr>"
  by code_simp

theorem valid_submission_accepted_counterexample:
  "validate example_env example_body = Inr None
   \<and> offboarding empty_store = []
   \<and> fst (submit_Backend example_env 17 empty_store example_body) =
       Inr \<lparr>status = 200,
         json = JObject [(''message'', JString ''Offboarding form submitted successfully''),
                         (''id'', JInteger 1)]\<rparr>
   \<and> validate example_env (example_body(''empName'' := Prim (JStr long_name))) = Inr None
   \<and> fst (submit example_env 17 empty_store
        (example_body(''empName'' := Prim (JStr long_name)))) =
       Inr \<lparr>status = 500, json = JObject [(''error'', JString ''Internal server error'')]\<rparr>
   \<and> validate example_env zero_feedback = Inr None
   \<and> fst (submit example_env 17 empty_store zero_feedback) =
       Inr \<lparr>status = 500, json = JObject [(''error'', JString ''Internal server error'')]\<rparr>
   \<and> validate example_env (example_body(''bonus'' := Prim JNull)) = Inr None
   \<and> fst (submit example_env 17 empty_store (example_body(''bonus'' := Prim JNull))) =
       Inr \<lparr>status = 500, json = JObject [(''error'', JString ''Internal server error'')]\<rparr>
   \<and> fst (submit example_env 17 (empty_store\<lparr>reachable := False\<rparr>) example_body) =
       Inr \<lparr>status = 500, json = JObject [(''error'', JString ''Internal server error'')]\<rparr>
   \<and> fst (submit example_env 17 (empty_store\<lparr>offboarding_id_seq := 2147483647\<rparr>)
        example_body) =
       Inr \<lparr>status = 500, json = JObject [(''error'', JString ''Internal server error'')]\<rparr>"
  using example_valid example_Backend_created long_name_valid long_name_rejected
    zero_feedback_valid zero_feedback_rejected null_bonus_valid null_bonus_rejected
    unreachable_rejected exhausted_rejected example_ids(5)
  by simp

section \<open>Properties of the listing\<close>

lemma keys_row_json:
  "keys (row_json r) =
     [''empName'', ''position'', ''department'', ''empId'', ''feedback'', ''finalSalary'',
      ''bonus'', ''acknowledgment'', ''createdAt'']"
  by (simp add: keys_def row_json_def)

lemma keys_row_json_Backend:
  "keys (row_json_Backend r) =
     [''empName'', ''position'', ''department'', ''empId'', ''feedback'', ''finalSalary'',
      ''bonus'', ''acknowledgment'']"
  by (simp add: keys_def row_json_Backend_def)

lemma newest_first:
  "sorted_wrt (\<lambda>a b. created_at b \<le> created_at a) (sort_key (\<lambda>r. - created_at r) rows)"
proof -
  have "sorted (map (\<lambda>r. - created_at r) (sort_key (\<lambda>r. - created_at r) rows))"
    by (rule sorted_sort_key)
  then show ?thesis
    by (simp add: sorted_map)
qed

text \<open>
  C8 (amended). While the database is reachable, the listing answers with status 200
  and an array that holds every row of the table once, ordered by \<^verbatim>\<open>created_at\<close>
  from the newest to the oldest; on the empty table the array is empty. Each element
  from \<^verbatim>\<open>src/unnamed/part_000\<close> has exactly the keys empName, position,
  department, empId, feedback, finalSalary, bonus, acknowledgment, createdAt; each
  element from \<^verbatim>\<open>src/Backend/server.js\<close> has the first eight and no createdAt.
\<close>

theorem listing_newest_first:
  assumes "reachable db"
  shows "\<exists>rows.
      list_offboarding db = \<lparr>status = 200, json = JArray (map row_json rows)\<rparr>
    \<and> list_offboarding_Backend db = \<lparr>status = 200, json = JArray (map row_json_Backend rows)\<rparr>
    \<and> mset rows = mset (offboarding db)
    \<and> sorted_wrt (\<lambda>a b. created_at b \<le> created_at a) rows
    \<and> list_all (\<lambda>j. keys j =
         [''empName'', ''position'', ''department'', ''empId'', ''feedback'', ''finalSalary'',
          ''bonus'', ''acknowledgment'', ''createdAt'']) (map row_json rows)
    \<and> list_all (\<lambda>j. keys j =
         [''empName'', ''position'', ''department'', ''empId'', ''feedback'', ''finalSalary'',
          ''bonus'', ''acknowledgment'']) (map row_json_Backend rows)
    \<and> (offboarding db = [] \<longrightarrow> rows = [])"
proof (intro exI conjI)
  let ?rows = "sort_key (\<lambda>r. - created_at r) (offboarding db)"
  from assms show "list_offboarding db = \<lparr>status = 200, json = JArray (map row_json ?rows)\<rparr>"
    by (simp add: list_offboarding_def select_offboarding_def)
  from assms show "list_offboarding_Backend db =
      \<lparr>status = 200, json = JArray (map row_json_Backend ?rows)\<rparr>"
    by (simp add: list_offboarding_Backend_def select_offboarding_def)
  show "mset ?rows = mset (offboarding db)"
    by simp
  show "sorted_wrt (\<lambda>a b. created_at b \<le> created_at a) ?rows"
    by (rule newest_first)
  show "list_all (\<lambda>j. keys j =
         [''empName'', ''position'', ''department'', ''empId'', ''feedback'', ''finalSalary'',
          ''bonus'', ''acknowledgment'', ''createdAt'']) (map row_json ?rows)"
    by (simp add: list_all_iff keys_row_json)
  show "list_all (\<lambda>j. keys j =
         [''empName'', ''position'', ''department'', ''empId'', ''feedback'', ''finalSalary'',
          ''bonus'', ''acknowledgment'']) (map row_json_Backend ?rows)"
    by (simp add: list_all_iff keys_row_json_Backend)
  show "offboarding db = [] \<longrightarrow> ?rows = []"
    by simp
qed

theorem listing_newest_first_witness:
  "reachable (example_store\<lparr>offboarding := [example_row, later_row]\<rparr>)
   \<and> list_offboarding (example_store\<lparr>offboarding := [example_row, later_row]\<rparr>) =
       \<lparr>status = 200, json = JArray [row_json later_row, row_json example_row]\<rparr>
   \<and> list_offboarding empty_store = \<lparr>status = 200, json = JArray []\<rparr>"
proof -
  have r: "reachable (example_store\<lparr>offboarding := [example_row, later_row]\<rparr>)"
    "reachable empty_store"
    by (simp_all add: example_store_def empty_store_def)
  from listing_newest_first [OF r(1)] listing_newest_first [OF r(2)] r show ?thesis
    by (auto simp: empty_store_def example_store_def example_row_def later_row_def
        list_offboarding_def select_offboarding_def)
qed

text \<open>
  The claim as stated fails: the elements of \<^verbatim>\<open>src/Backend/server.js\<close> have no
  createdAt, and an unreachable database is answered with status 500.
\<close>

lemma Backend_listing_keys:
  "map keys (elements (json (list_offboarding_Backend example_store))) =
     [[''empName'', ''position'', ''department'', ''empId'', ''feedback'', ''finalSalary'',
       ''bonus'', ''acknowledgment'']]"
  by code_simp

lemma unreachable_listing:
  "status (list_offboarding (example_store\<lparr>reachable := False\<rparr>)) = 500"
  by code_simp

theorem listing_newest_first_counterexample:
  "map keys (elements (json (list_offboarding_Backend example_store))) =
     [[''empName'', ''position'', ''department'', ''empId'', ''feedback'', ''finalSalary'',
       ''bonus'', ''acknowledgment'']]
   \<and> status (list_offboarding (example_store\<lparr>reachable := False\<rparr>)) = 500"
  using Backend_listing_keys unreachable_listing by simp

section \<open>Properties of the health check\<close>

text \<open>
  C9 (amended). The health check always answers with status 200 and status
  \<^verbatim>\<open>healthy\<close>; its database field is \<^verbatim>\<open>connected\<close> exactly when the
  connection pool holds at least one client and \<^verbatim>\<open>disconnected\<close> exactly when it
  holds none, whatever the database is.
\<close>

theorem health_reports_pool:
  "status (health s timestamp) = 200
   \<and> lookup ''status'' (json (health s timestamp)) = Some (JString ''healthy'')
   \<and> (lookup ''database'' (json (health s timestamp)) = Some (JString ''connected'')
        \<longleftrightarrow> 0 < totalCount (pool s))
   \<and> (lookup ''database'' (json (health s timestamp)) = Some (JString ''disconnected'')
        \<longleftrightarrow> totalCount (pool s) = 0)"
  by (simp add: health_def lookup_def)

theorem health_reports_pool_witness:
  "lookup ''database'' (json (health cut_off_service ''2026-01-01T00:00:00.000Z''))
     = Some (JString ''connected'')"
  using health_reports_pool [of cut_off_service "''2026-01-01T00:00:00.000Z''"]
  by (simp add: cut_off_service_def)

text \<open>
  The claim as stated fails in both directions: a reachable database is reported
  \<^verbatim>\<open>disconnected\<close> when the pool is empty, an unreachable one \<^verbatim>\<open>connected\<close>
  while the pool still counts a client.
\<close>

theorem health_reports_pool_counterexample:
  "reachable (store idle_service)
   \<and> lookup ''database'' (json (health idle_service ''2026-01-01T00:00:00.000Z''))
       = Some (JString ''disconnected'')
   \<and> \<not> reachable (store cut_off_service)
   \<and> lookup ''database'' (json (health cut_off_service ''2026-01-01T00:00:00.000Z''))
       = Some (JString ''connected'')"
  by (simp add: idle_service_def cut_off_service_def example_store_def health_def lookup_def)

section \<open>Properties of the startup\<close>

lemma find_upt_ge: "find P [a..<m] = Some k \<Longrightarrow> a \<le> k \<and> k < m \<and> P k"
  by (auto simp: find_Some_iff)

lemma retries_Suc: "retries (Suc k) d = Connect False # Delay d # retries k d"
  by (simp add: retries_def)

lemma loop_closed_form:
  "connectWithRetry_loop connect m d a =
     (case find connect [a..<m] of
        Some k \<Rightarrow> (retries (k - a) d @ [Connect True], True)
      | None \<Rightarrow> if a < m then (retries (m - a - 1) d @ [Connect False], False)
                else ([], True))"
proof (induction connect m d a rule: connectWithRetry_loop.induct)
  case (1 connect m d a)
  note unfold = connectWithRetry_loop.simps [of connect m d a]
  show ?case
  proof (cases "a < m")
    case False
    then show ?thesis by (simp add: unfold)
  next
    case lt: True
    then have upt: "[a..<m] = a # [Suc a..<m]"
      by (rule upt_conv_Cons)
    show ?thesis
    proof (cases "connect a")
      case True
      with lt upt show ?thesis by (simp add: unfold retries_def)
    next
      case fail: False
      show ?thesis
      proof (cases "Suc a < m")
        case False
        with lt fail upt show ?thesis by (simp add: unfold retries_def)
      next
        case more: True
        have IH: "connectWithRetry_loop connect m d (Suc a) =
          (case find connect [Suc a..<m] of
             Some k \<Rightarrow> (retries (k - Suc a) d @ [Connect True], True)
           | None \<Rightarrow> (retries (m - Suc a - 1) d @ [Connect False], False))"
          using "1.IH" [OF lt fail refl] more by (simp split: option.splits)
        show ?thesis
        proof (cases "find connect [Suc a..<m]")
          case None
          from more have "m - a - 1 = Suc (m - Suc a - 1)" by simp
          with None IH lt fail more upt show ?thesis
            by (simp add: unfold retries_Suc)
        next
          case (Some k)
          then have "Suc a \<le> k" using find_upt_ge by blast
          then have "k - a = Suc (k - Suc a)" by simp
          with Some IH lt fail more upt show ?thesis
            by (simp add: unfold retries_Suc)
        qed
      qed
    qed
  qed
qed

lemma first_success_Some:
  assumes "first_success connect m = Some k"
  shows "k < m \<and> connect k \<and> (\<forall>j<k. \<not> connect j)"
proof -
  from assms obtain i where i: "i < length [0..<m]" "connect ([0..<m] ! i)" "k = [0..<m] ! i"
    "\<forall>j<i. \<not> connect ([0..<m] ! j)"
    unfolding first_success_def find_Some_iff by blast
  then have "k = i" "i < m" by simp_all
  with i show ?thesis by simp
qed

lemma first_success_None: "(\<forall>k<m. \<not> connect k) \<Longrightarrow> first_success connect m = None"
  by (simp add: first_success_def find_None_iff)

lemma connectWithRetry_closed_form:
  "connectWithRetry connect m d =
     (case first_success connect m of
        Some k \<Rightarrow> (retries k d @ [Connect True], True)
      | None \<Rightarrow> if 0 < m then (retries (m - 1) d @ [Connect False], False) else ([], True))"
  by (simp add: connectWithRetry_def loop_closed_form first_success_def split: option.splits)

lemma startup_closed_form:
  "startup connect created =
     (case first_success connect 5 of
        None \<Rightarrow> retries 4 5000 @ [Connect False, Exit 1]
      | Some k \<Rightarrow>
          if created then retries k 5000 @ [Connect True, CreateTable True, Listen port]
          else retries k 5000 @ [Connect True, CreateTable False, Exit 1])"
  by (simp add: startup_def initializeDatabase_def connectWithRetry_closed_form
      split: option.splits)

lemma attempts_retries: "length (filter is_attempt (retries k d)) = k"
  by (induction k) (simp_all add: retries_Suc is_attempt_def, simp add: retries_def)

lemma Listen_retries: "Listen p \<notin> set (retries k d)"
  by (induction k) (simp_all add: retries_Suc, simp add: retries_def)

lemma first_success_exists: "k < m \<Longrightarrow> connect k \<Longrightarrow> \<exists>i. first_success connect m = Some i"
  by (cases "first_success connect m") (auto simp: first_success_def find_None_iff)

text \<open>
  C10. The startup makes at most 5 connection attempts, each failed one but the last
  followed by a delay of 5000 milliseconds. It listens only when one of the first 5
  attempts has succeeded and the table has been created: the trace then consists of
  the failed attempts before the first successful one with their delays, that
  attempt, the creation of the table and the \<open>Listen\<close>; and it does listen then.
  When the creation of the table fails, the trace ends with \<open>Exit 1\<close> after it;
  when all 5 attempts fail, with \<open>Exit 1\<close> after the fifth; in both cases the
  process never listens.
\<close>

theorem bounded_startup:
  "length (filter is_attempt (startup connect created)) \<le> 5
   \<and> (Listen port \<in> set (startup connect created) \<longrightarrow>
        created
        \<and> (\<exists>k<5. connect k \<and> (\<forall>j<k. \<not> connect j)
             \<and> startup connect created =
                 retries k 5000 @ [Connect True, CreateTable True, Listen port]))
   \<and> ((\<exists>k<5. connect k) \<and> created \<longrightarrow> Listen port \<in> set (startup connect created))
   \<and> ((\<exists>k<5. connect k) \<and> \<not> created \<longrightarrow>
        (\<exists>k<5. connect k \<and> (\<forall>j<k. \<not> connect j)
           \<and> startup connect created =
               retries k 5000 @ [Connect True, CreateTable False, Exit 1])
        \<and> Listen port \<notin> set (startup connect created))
   \<and> ((\<forall>k<5. \<not> connect k) \<longrightarrow>
        startup connect created = retries 4 5000 @ [Connect False, Exit 1]
        \<and> Listen port \<notin> set (startup connect created))"
proof -
  have attempts: "length (filter is_attempt (startup connect created)) \<le> 5"
  proof (cases "first_success connect 5")
    case None
    then show ?thesis
      by (simp add: startup_closed_form attempts_retries is_attempt_def)
  next
    case (Some k)
    then have "k < 5" using first_success_Some by blast
    with Some show ?thesis
      by (simp add: startup_closed_form attempts_retries is_attempt_def)
  qed
  have listen: "created
      \<and> (\<exists>k<5. connect k \<and> (\<forall>j<k. \<not> connect j)
           \<and> startup connect created =
               retries k 5000 @ [Connect True, CreateTable True, Listen port])"
    if "Listen port \<in> set (startup connect created)"
  proof (cases "first_success connect 5")
    case None
    with that show ?thesis
      by (simp add: startup_closed_form Listen_retries)
  next
    case (Some k)
    from that Some have created by (simp add: startup_closed_form Listen_retries split: if_splits)
    with Some have "startup connect created =
        retries k 5000 @ [Connect True, CreateTable True, Listen port]"
      by (simp add: startup_closed_form)
    with first_success_Some [OF Some] \<open>created\<close> show ?thesis by blast
  qed
  have success: "Listen port \<in> set (startup connect created)"
    if "(\<exists>k<5. connect k) \<and> created"
  proof -
    from that first_success_exists obtain i where "first_success connect 5 = Some i" by blast
    with that show ?thesis by (simp add: startup_closed_form)
  qed
  have no_table: "(\<exists>k<5. connect k \<and> (\<forall>j<k. \<not> connect j)
           \<and> startup connect created =
               retries k 5000 @ [Connect True, CreateTable False, Exit 1])
        \<and> Listen port \<notin> set (startup connect created)"
    if "(\<exists>k<5. connect k) \<and> \<not> created"
  proof -
    from that first_success_exists obtain i where i: "first_success connect 5 = Some i" by blast
    with that have "startup connect created =
        retries i 5000 @ [Connect True, CreateTable False, Exit 1]"
      by (simp add: startup_closed_form)
    moreover from this have "Listen port \<notin> set (startup connect created)"
      by (simp add: Listen_retries)
    ultimately show ?thesis using first_success_Some [OF i] by blast
  qed
  have all_fail: "startup connect created = retries 4 5000 @ [Connect False, Exit 1]
        \<and> Listen port \<notin> set (startup connect created)"
    if "\<forall>k<5. \<not> connect k"
  proof -
    from that have "first_success connect 5 = None"
      by (rule first_success_None)
    then show ?thesis by (simp add: startup_closed_form Listen_retries)
  qed
  from attempts listen success no_table all_fail show ?thesis by blast
qed

lemma example_startup:
  "startup (\<lambda>k. 2 \<le> k) True =
     [Connect False, Delay 5000, Connect False, Delay 5000, Connect True, CreateTable True,
      Listen 3100]"
  "startup (\<lambda>k. 2 \<le> k) False =
     [Connect False, Delay 5000, Connect False, Delay 5000, Connect True, CreateTable False,
      Exit 1]"
  by code_simp+

theorem bounded_startup_witness:
  "Listen port \<in> set (startup (\<lambda>k. 2 \<le> k) True)
   \<and> length (filter is_attempt (startup (\<lambda>k. 2 \<le> k) True)) \<le> 5
   \<and> startup (\<lambda>k. 2 \<le> k) True = retries 2 5000 @ [Connect True, CreateTable True, Listen port]
   \<and> Listen port \<notin> set (startup (\<lambda>k. 2 \<le> k) False)
   \<and> startup (\<lambda>k. False) True =
       [Connect False, Delay 5000, Connect False, Delay 5000, Connect False, Delay 5000,
        Connect False, Delay 5000, Connect False, Exit 1]
   \<and> Listen port \<notin> set (startup (\<lambda>k. False) True)"
  using bounded_startup [of "\<lambda>k. 2 \<le> k" True] bounded_startup [of "\<lambda>k. 2 \<le> k" False]
    bounded_startup [of "\<lambda>k. False" True] example_startup
  by (simp add: port_def retries_def numeral_eq_Suc)

end
